theory Spec2Isabelle
  imports Complex_Main
begin

section \<open>JavaScript numbers\<close>

text \<open>
  The store of \<^verbatim>\<open>src/components/store/gameStore.ts\<close> keeps every quantity in a
  JavaScript \<^verbatim>\<open>number\<close>, an IEEE 754 double. A number is \<open>NaN\<close>, one of the two
  infinities, or a finite value carried by a rational. The finite values the program holds
  are doubles; the operations are defined on every rational. A sum or difference is the
  exact result rounded to a double by \<open>toDouble\<close>; \<^verbatim>\<open>Math.round\<close>,
  \<^verbatim>\<open>Math.floor\<close>, \<^verbatim>\<open>Math.abs\<close>, \<^verbatim>\<open>Math.max\<close>, \<^verbatim>\<open>Math.min\<close> and the
  comparisons are exact on doubles. The sign of zero is not represented.
\<close>

datatype number = NaN | NegInf | PosInf | Fin rat

subsection \<open>Rounding to a double\<close>

text \<open>
  Round to nearest, ties to even, with 53 significant bits. \<open>pow2 e\<close> is the power of
  two of exponent \<open>e\<close>. \<open>expo x\<close> is the binary exponent of a positive \<open>x\<close> (the \<open>e\<close>
  with \<open>pow2 e \<le> x < pow2 (e + 1)\<close>), found by halving or doubling and kept between
  \<open>-1022\<close>, below which the doubles are subnormal and keep the spacing \<open>pow2 (-1074)\<close>,
  and 1024. The spacing of the doubles around \<open>x\<close> is \<open>pow2 (expo x - 52)\<close>.
  \<open>toDouble q\<close> is the multiple of that spacing nearest to \<open>q\<close>, the even multiple on a
  tie, and an infinity when that multiple reaches \<open>pow2 1024\<close>.
\<close>

definition pow2 :: "int \<Rightarrow> rat" where
  "pow2 e = power_int 2 e"

primrec up :: "nat \<Rightarrow> rat \<Rightarrow> int" where
  "up 0 x = 0"
| "up (Suc n) x = (if x < 2 then 0 else 1 + up n (x / 2))"

primrec down :: "nat \<Rightarrow> rat \<Rightarrow> int" where
  "down 0 x = 0"
| "down (Suc n) x = (if 1 \<le> x then 0 else down n (2 * x) - 1)"

definition expo :: "rat \<Rightarrow> int" where
  "expo x = (if 1 \<le> x then up 1024 x else down 1022 x)"

definition roundEven :: "rat \<Rightarrow> int" where
  "roundEven z =
     (let f = \<lfloor>z\<rfloor>; d = z - of_int f
      in if d < 1 / 2 then f else if 1 / 2 < d then f + 1 else if even f then f else f + 1)"

definition toDouble :: "rat \<Rightarrow> number" where
  "toDouble q =
     (if q = 0 then Fin 0
      else (let u = pow2 (expo \<bar>q\<bar> - 52);
                r = of_int (roundEven (q / u)) * u
            in if pow2 1024 \<le> r then PosInf
               else if r \<le> - pow2 1024 then NegInf
               else Fin r))"

subsection \<open>Operations\<close>

text \<open>\<^verbatim>\<open>Number.isFinite(n)\<close>\<close>

fun isFinite :: "number \<Rightarrow> bool" where
  "isFinite (Fin q) = True"
| "isFinite NaN = False"
| "isFinite NegInf = False"
| "isFinite PosInf = False"

text \<open>\<^verbatim>\<open>a < b\<close>, \<^verbatim>\<open>a <= b\<close>, \<^verbatim>\<open>a >= b\<close>: every comparison with \<open>NaN\<close> is false.\<close>

fun num_lt :: "number \<Rightarrow> number \<Rightarrow> bool" where
  "num_lt NaN b = False"
| "num_lt a NaN = False"
| "num_lt PosInf b = False"
| "num_lt a NegInf = False"
| "num_lt NegInf b = True"
| "num_lt a PosInf = True"
| "num_lt (Fin x) (Fin y) = (x < y)"

fun num_le :: "number \<Rightarrow> number \<Rightarrow> bool" where
  "num_le NaN b = False"
| "num_le a NaN = False"
| "num_le NegInf b = True"
| "num_le a PosInf = True"
| "num_le PosInf b = False"
| "num_le a NegInf = False"
| "num_le (Fin x) (Fin y) = (x \<le> y)"

definition num_ge :: "number \<Rightarrow> number \<Rightarrow> bool" where
  "num_ge a b = num_le b a"

text \<open>
  \<^verbatim>\<open>a + b\<close> and \<^verbatim>\<open>a - b\<close>: the exact sum of two finite numbers, rounded to a
  double.
\<close>

fun num_add :: "number \<Rightarrow> number \<Rightarrow> number" where
  "num_add NaN b = NaN"
| "num_add a NaN = NaN"
| "num_add PosInf NegInf = NaN"
| "num_add NegInf PosInf = NaN"
| "num_add PosInf b = PosInf"
| "num_add NegInf b = NegInf"
| "num_add a PosInf = PosInf"
| "num_add a NegInf = NegInf"
| "num_add (Fin x) (Fin y) = toDouble (x + y)"

fun num_neg :: "number \<Rightarrow> number" where
  "num_neg NaN = NaN"
| "num_neg NegInf = PosInf"
| "num_neg PosInf = NegInf"
| "num_neg (Fin x) = Fin (- x)"

definition num_sub :: "number \<Rightarrow> number \<Rightarrow> number" where
  "num_sub a b = num_add a (num_neg b)"

text \<open>
  \<^verbatim>\<open>Math.max\<close> and \<^verbatim>\<open>Math.min\<close> of two arguments: \<open>NaN\<close> as soon as one argument
  is \<open>NaN\<close>.
\<close>

fun Math_max :: "number \<Rightarrow> number \<Rightarrow> number" where
  "Math_max NaN b = NaN"
| "Math_max a NaN = NaN"
| "Math_max a b = (if num_lt a b then b else a)"

fun Math_min :: "number \<Rightarrow> number \<Rightarrow> number" where
  "Math_min NaN b = NaN"
| "Math_min a NaN = NaN"
| "Math_min a b = (if num_lt b a then b else a)"

text \<open>
  \<^verbatim>\<open>Math.round\<close> rounds to the nearest integer, a tie going up: \<open>\<lfloor>x + 1/2\<rfloor>\<close>, which is
  what \<^const>\<open>round\<close> computes. \<^verbatim>\<open>Math.floor\<close> and \<^verbatim>\<open>Math.abs\<close> likewise
  leave \<open>NaN\<close> and the infinities to themselves (\<^verbatim>\<open>Math.abs(-Infinity)\<close> is
  \<^verbatim>\<open>Infinity\<close>).
\<close>

fun Math_round :: "number \<Rightarrow> number" where
  "Math_round (Fin x) = Fin (of_int (round x))"
| "Math_round n = n"

fun Math_floor :: "number \<Rightarrow> number" where
  "Math_floor (Fin x) = Fin (of_int \<lfloor>x\<rfloor>)"
| "Math_floor n = n"

fun Math_abs :: "number \<Rightarrow> number" where
  "Math_abs (Fin x) = Fin \<bar>x\<bar>"
| "Math_abs NegInf = PosInf"
| "Math_abs n = n"

text \<open>\<^verbatim>\<open>n || 0\<close> on a number: \<open>0\<close> and \<open>NaN\<close> are falsy.\<close>

fun or0 :: "number \<Rightarrow> number" where
  "or0 NaN = Fin 0"
| "or0 n = n"

section \<open>Clamping a need\<close>

text \<open>
  \<^verbatim>\<open>
  function clampNeed(v: number): number {
    const n = Number(v);
    if (!Number.isFinite(n)) return 0;
    return Math.max(0, Math.min(100, Math.round(n)));
  }
  \<close>
  On a number \<^verbatim>\<open>Number(v)\<close> is \<open>v\<close> itself.
\<close>

definition clampNeed :: "number \<Rightarrow> number" where
  "clampNeed n =
     (if \<not> isFinite n then Fin 0
      else Math_max (Fin 0) (Math_min (Fin 100) (Math_round n)))"

section \<open>Types of the store\<close>

datatype AnimalId = pig | dog | cat | fox | bunny | unicorn | snake | panda | dragon

datatype AccessoryId = collar | leash | headband

datatype TxType = income | expense

text \<open>
  \<^verbatim>\<open>NeedId = "hunger" | "thirst" | "health" | "fun" | "sleep"\<close>; the identifiers are
  capitalised because \<open>fun\<close> is a keyword. A \<^verbatim>\<open>Record<K, V>\<close> over one of these
  finite key types is a function from the keys, so that the computed-key update
  \<^verbatim>\<open>{ ...r, [k]: v }\<close> is \<open>r(k := v)\<close>.
\<close>

datatype NeedId = Hunger | Thirst | Health | Fun | Sleep

type_synonym Needs = "NeedId \<Rightarrow> number"

record Transaction =
  tx_id :: string
  createdAt :: number
  tx_type :: TxType
  amount :: number
  category :: string
  tx_note :: string

type_synonym EquippedAccessories = "AccessoryId \<Rightarrow> bool"
type_synonym OwnedAccessories = "AccessoryId \<Rightarrow> number"
type_synonym OwnedPets = "AnimalId \<Rightarrow> bool"

record Badges =
  accessory_1 :: bool
  accessory_2 :: bool
  accessory_4 :: bool
  days_5 :: bool
  days_10 :: bool
  days_15 :: bool
  days_25 :: bool
  days_50 :: bool
  days_100 :: bool

record GameState =
  needs :: Needs
  money :: number
  animalId :: AnimalId
  ownedPets :: OwnedPets
  ownedAccessories :: OwnedAccessories
  equippedAccessories :: EquippedAccessories
  badges :: Badges
  daysPlayed :: number
  transactions :: "Transaction list"

text \<open>
  \<^verbatim>\<open>type PetAges = Partial<Record<AnimalId, number>>\<close> is the type the code gives to
  the per-pet ages. They live in \<^verbatim>\<open>localStorage\<close> under their own key, and
  \<^verbatim>\<open>loadPetAges\<close> returns whatever \<^verbatim>\<open>JSON.parse\<close> makes of the entry, without
  looking at its shape (an entry that is missing, empty or does not parse gives the empty
  object). \<open>AgesEntry\<close> is what \<^verbatim>\<open>loadPetAges\<close> returns: \<open>NotAnObject\<close> for
  \<^verbatim>\<open>null\<close>, a boolean, a number or a string, \<open>AnArray\<close> for an array, \<open>AnObject\<close>
  for an object with what it holds for each pet. A key that is absent or holds
  \<^verbatim>\<open>null\<close> is \<open>None\<close>, since the code reads it through \<^verbatim>\<open>?? 0\<close>. A value
  that is present is told apart by what \<^verbatim>\<open>+ 1\<close> does to it: a number; a boolean,
  which \<^verbatim>\<open>+\<close> converts to 0 or 1; \<open>AgeText\<close>, a string or an object or array that
  converts to a string, to which \<^verbatim>\<open>+ 1\<close> appends and which stays a string;
  \<open>AgeUnconvertible\<close>, an object or array whose conversion to a primitive throws a
  \<^verbatim>\<open>TypeError\<close> (a parsed object that holds a key \<^verbatim>\<open>toString\<close>, which is not
  callable, or an array with such an element).
\<close>

datatype AgeValue = AgeNumber number | AgeBool bool | AgeText | AgeUnconvertible

type_synonym PetAges = "AnimalId \<Rightarrow> AgeValue option"

datatype AgesEntry = NotAnObject | AnArray | AnObject PetAges

datatype error = TypeError

text \<open>
  \<^verbatim>\<open>JSON.stringify\<close> writes \<^verbatim>\<open>null\<close> for a number that is not finite, and the
  next \<^verbatim>\<open>ages[currentPet] ?? 0\<close> reads that as no age.
\<close>

definition storedAge :: "number \<Rightarrow> AgeValue option" where
  "storedAge n = (if isFinite n then Some (AgeNumber n) else None)"

text \<open>
  \<^verbatim>\<open>(ages[currentPet] ?? 0) + 1\<close>, as \<^verbatim>\<open>savePetAges\<close> then writes it and the next
  \<^verbatim>\<open>loadPetAges\<close> reads it back.
\<close>

fun agePlusOne :: "AgeValue option \<Rightarrow> error + AgeValue option" where
  "agePlusOne None = Inr (storedAge (num_add (Fin 0) (Fin 1)))"
| "agePlusOne (Some (AgeNumber a)) = Inr (storedAge (num_add a (Fin 1)))"
| "agePlusOne (Some (AgeBool b)) = Inr (storedAge (num_add (if b then Fin 1 else Fin 0) (Fin 1)))"
| "agePlusOne (Some AgeText) = Inr (Some AgeText)"
| "agePlusOne (Some AgeUnconvertible) = Inl TypeError"


section \<open>Default state\<close>

definition defaultNeeds :: Needs where
  "defaultNeeds = (\<lambda>k. Fin 0)"

fun defaultOwnedPets :: OwnedPets where
  "defaultOwnedPets pig = True"
| "defaultOwnedPets dog = True"
| "defaultOwnedPets cat = True"
| "defaultOwnedPets fox = True"
| "defaultOwnedPets bunny = True"
| "defaultOwnedPets unicorn = False"
| "defaultOwnedPets snake = False"
| "defaultOwnedPets panda = False"
| "defaultOwnedPets dragon = False"

definition defaultBadges :: Badges where
  "defaultBadges =
     \<lparr> accessory_1 = False, accessory_2 = False, accessory_4 = False,
       days_5 = False, days_10 = False, days_15 = False, days_25 = False,
       days_50 = False, days_100 = False \<rparr>"

definition defaultState :: GameState where
  "defaultState =
     \<lparr> needs = defaultNeeds,
       money = Fin 0,
       animalId = dog,
       ownedPets = defaultOwnedPets,
       ownedAccessories = (\<lambda>a. Fin 0),
       equippedAccessories = (\<lambda>a. False),
       badges = defaultBadges,
       daysPlayed = Fin 0,
       transactions = [] \<rparr>"

section \<open>Helpers\<close>

text \<open>
  \<^verbatim>\<open>
  function clampNeeds(needs: Partial<Needs> | undefined | null): Needs {
    const base = { ...defaultState.needs, ...(needs ?? {}) } as Needs;
    return { hunger: clampNeed(base.hunger), thirst: clampNeed(base.thirst),
             health: clampNeed(base.health), fun: clampNeed(base.fun),
             sleep: clampNeed(base.sleep) };
  }
  \<close>
  Here the argument is a complete \<open>Needs\<close>, so \<open>base\<close> is the argument. The same
  function on a partial or malformed argument is \<open>clampNeeds_any\<close> below.
\<close>

definition clampNeeds :: "Needs \<Rightarrow> Needs" where
  "clampNeeds base =
     (\<lambda>k. case k of
        Hunger \<Rightarrow> clampNeed (base Hunger)
      | Thirst \<Rightarrow> clampNeed (base Thirst)
      | Health \<Rightarrow> clampNeed (base Health)
      | Fun \<Rightarrow> clampNeed (base Fun)
      | Sleep \<Rightarrow> clampNeed (base Sleep))"

text \<open>
  \<^verbatim>\<open>
  function normalize(s: GameState): GameState {
    return { ...defaultState, ...s,
      ownedPets: { ...defaultState.ownedPets, ...(s.ownedPets ?? {}) },
      ownedAccessories: { ...defaultState.ownedAccessories, ...(s.ownedAccessories ?? {}) },
      equippedAccessories: { ...defaultState.equippedAccessories, ...(s.equippedAccessories ?? {}) },
      badges: { ...defaultState.badges, ...(s.badges ?? {}) },
      needs: clampNeeds(anyS.needs),
      transactions: Array.isArray(s.transactions) ? s.transactions : [],
      money: Math.max(0, Number(s.money) || 0),
      daysPlayed: Math.max(0, Number(s.daysPlayed) || 0),
      animalId: s.animalId ?? defaultState.animalId };
  }
  \<close>
  On a value of type \<open>GameState\<close> every field is present, so each merge with the
  defaults yields the field of \<open>s\<close>, \<open>transactions\<close> is an array and \<open>animalId\<close> is
  defined. What is left is the clamping of the needs and the coercion of \<open>money\<close> and
  \<open>daysPlayed\<close>. Lemma \<open>normalize_any_encode\<close> below shows that this is what the function
  on arbitrary parsed values, \<open>normalize_any\<close>, does on the encoding of a \<open>GameState\<close>.
\<close>

definition normalize :: "GameState \<Rightarrow> GameState" where
  "normalize s =
     \<lparr> needs = clampNeeds (needs s),
       money = Math_max (Fin 0) (or0 (money s)),
       animalId = animalId s,
       ownedPets = ownedPets s,
       ownedAccessories = ownedAccessories s,
       equippedAccessories = equippedAccessories s,
       badges = badges s,
       daysPlayed = Math_max (Fin 0) (or0 (daysPlayed s)),
       transactions = transactions s \<rparr>"

definition totalAccessoriesOwned :: "OwnedAccessories \<Rightarrow> number" where
  "totalAccessoriesOwned o_acc = num_add (num_add (o_acc collar) (o_acc leash)) (o_acc headband)"

definition computeBadges :: "GameState \<Rightarrow> Badges" where
  "computeBadges s =
     (let acc = totalAccessoriesOwned (ownedAccessories s);
          d = daysPlayed s
      in \<lparr> accessory_1 = num_ge acc (Fin 1),
           accessory_2 = num_ge acc (Fin 2),
           accessory_4 = num_ge acc (Fin 4),
           days_5 = num_ge d (Fin 5),
           days_10 = num_ge d (Fin 10),
           days_15 = num_ge d (Fin 15),
           days_25 = num_ge d (Fin 25),
           days_50 = num_ge d (Fin 50),
           days_100 = num_ge d (Fin 100) \<rparr>)"

definition allNeedsComplete :: "Needs \<Rightarrow> bool" where
  "allNeedsComplete nd =
     (num_ge (nd Hunger) (Fin 100) \<and>
      num_ge (nd Thirst) (Fin 100) \<and>
      num_ge (nd Health) (Fin 100) \<and>
      num_ge (nd Fun) (Fin 100) \<and>
      num_ge (nd Sleep) (Fin 100))"

section \<open>State and commit\<close>

text \<open>
  The module keeps the current \<open>GameState\<close> in the variable \<^verbatim>\<open>state\<close> and the
  per-pet ages in a second \<^verbatim>\<open>localStorage\<close> entry. Both are threaded through every
  operation as a \<open>Store\<close>. The copy of the state written to \<^verbatim>\<open>localStorage\<close> and the
  listeners that are called with it are functions of the committed state and are not
  represented; a failing storage write is swallowed by the code and changes nothing here.
  The pet ages are written as if storage were available.
\<close>

record Store =
  state :: GameState
  petAges :: AgesEntry

text \<open>
  A call either returns or throws; in both cases the module is left with a store, the one
  at the throw when it throws.
\<close>

datatype outcome = Returned Store | Threw error Store

fun store_of :: "outcome \<Rightarrow> Store" where
  "store_of (Returned st) = st"
| "store_of (Threw e st) = st"

text \<open>
  The initial value of \<^verbatim>\<open>state\<close>: \<open>loaded\<close> is what \<^verbatim>\<open>safeParse\<close> returned, \<open>None\<close>
  when nothing was stored or it did not parse.
\<close>

definition initialState :: "GameState option \<Rightarrow> GameState" where
  "initialState loaded =
     (let base = (case loaded of Some l \<Rightarrow> normalize l | None \<Rightarrow> defaultState)
      in base\<lparr>badges := computeBadges base\<rparr>)"

text \<open>
  \<^verbatim>\<open>persist(nextRaw)\<close> normalizes the candidate, replaces its badges by
  \<^verbatim>\<open>computeBadges(normalized)\<close> and assigns the result to \<^verbatim>\<open>state\<close>. \<open>commit\<close> is
  that result; \<open>persist\<close> puts it into the store.
\<close>

definition commit :: "GameState \<Rightarrow> GameState" where
  "commit nextRaw =
     (let normalized = normalize nextRaw
      in normalized\<lparr>badges := computeBadges normalized\<rparr>)"

definition persist :: "GameState \<Rightarrow> Store \<Rightarrow> Store" where
  "persist nextRaw st = st\<lparr>state := commit nextRaw\<rparr>"

section \<open>Day advance\<close>

text \<open>
  \<^verbatim>\<open>
  function advanceDayBecauseNeedsComplete() {
    const ages = loadPetAges();
    const currentPet = state.animalId;
    ages[currentPet] = (ages[currentPet] ?? 0) + 1;
    savePetAges(ages);
    persist({ ...state, daysPlayed: (state.daysPlayed ?? 0) + 1,
              needs: { ...defaultState.needs } });
  }
  \<close>
  The module is an ES module, hence strict code. When \<^verbatim>\<open>ages\<close> is \<^verbatim>\<open>null\<close> the
  read \<^verbatim>\<open>ages[currentPet]\<close> throws a \<^verbatim>\<open>TypeError\<close>; when it is another primitive
  the read gives \<^verbatim>\<open>undefined\<close> and the assignment throws one; when the value read
  cannot be converted to a primitive the addition throws one. All three happen before
  anything is saved or committed. On an array the read gives \<^verbatim>\<open>undefined\<close> and the
  assignment sets a named property, which \<^verbatim>\<open>JSON.stringify\<close> leaves out, so the entry
  stays what it was.
\<close>

definition advanceDayBecauseNeedsComplete :: "Store \<Rightarrow> outcome" where
  "advanceDayBecauseNeedsComplete st =
     (case petAges st of
        NotAnObject \<Rightarrow> Threw TypeError st
      | AnArray \<Rightarrow>
          Returned (persist ((state st)\<lparr>daysPlayed := num_add (daysPlayed (state st)) (Fin 1),
                                          needs := defaultNeeds\<rparr>) st)
      | AnObject ages \<Rightarrow>
          (let currentPet = animalId (state st)
           in case agePlusOne (ages currentPet) of
                Inl e \<Rightarrow> Threw e st
              | Inr age \<Rightarrow>
                  (let st' = st\<lparr>petAges := AnObject (ages(currentPet := age))\<rparr>
                   in Returned (persist ((state st')\<lparr>daysPlayed := num_add (daysPlayed (state st')) (Fin 1),
                                                      needs := defaultNeeds\<rparr>) st'))))"

text \<open>
  Whether the day advance throws in a store: the pet-ages entry is not an object, or what
  it holds for the current pet cannot be converted to a primitive.
\<close>

definition ageBumpThrows :: "Store \<Rightarrow> bool" where
  "ageBumpThrows st =
     (case petAges st of
        NotAnObject \<Rightarrow> True
      | AnArray \<Rightarrow> False
      | AnObject ages \<Rightarrow> ages (animalId (state st)) = Some AgeUnconvertible)"

section \<open>Mutators\<close>

text \<open>
  \<^verbatim>\<open>uid()\<close> and \<^verbatim>\<open>Date.now()\<close> are supplied by the environment; a mutator that
  creates a transaction takes their results as its first two arguments. A parameter with a
  default value (\<^verbatim>\<open>count: number = 1\<close>) and an optional one (\<^verbatim>\<open>meta?\<close>) is an
  \<open>option\<close>, \<open>None\<close> when the caller leaves it out.
\<close>

definition setSelectedPet :: "AnimalId \<Rightarrow> Store \<Rightarrow> Store" where
  "setSelectedPet a st = persist ((state st)\<lparr>animalId := a\<rparr>) st"

definition setEquippedAccessory :: "AccessoryId \<Rightarrow> bool \<Rightarrow> Store \<Rightarrow> Store" where
  "setEquippedAccessory accessory equipped st =
     (if equipped \<and> num_le (ownedAccessories (state st) accessory) (Fin 0) then st
      else persist ((state st)\<lparr>equippedAccessories :=
                      (equippedAccessories (state st))(accessory := equipped)\<rparr>) st)"

text \<open>\<^verbatim>\<open>Omit<Transaction, "id" | "createdAt">\<close>\<close>

record TransactionInput =
  in_type :: TxType
  in_amount :: number
  in_category :: string
  in_note :: string

text \<open>\<^verbatim>\<open>[nextTx, ...state.transactions].slice(0, 250)\<close>\<close>

definition pushTransaction :: "Transaction \<Rightarrow> Transaction list \<Rightarrow> Transaction list" where
  "pushTransaction nextTx txs = take 250 (nextTx # txs)"

definition addTransaction :: "string \<Rightarrow> number \<Rightarrow> TransactionInput \<Rightarrow> Store \<Rightarrow> Store" where
  "addTransaction uid now tx st =
     (let nextTx = \<lparr> tx_id = uid, createdAt = now, tx_type = in_type tx,
                      amount = Math_max (Fin 0) (Math_round (in_amount tx)),
                      category = in_category tx, tx_note = in_note tx \<rparr>
      in persist ((state st)\<lparr>transactions := pushTransaction nextTx (transactions (state st))\<rparr>) st)"

text \<open>\<^verbatim>\<open>meta?: { category?: string; note?: string }\<close>\<close>

record Meta =
  meta_category :: "string option"
  meta_note :: "string option"

definition applyMoneyDelta :: "string \<Rightarrow> number \<Rightarrow> number \<Rightarrow> Meta option \<Rightarrow> Store \<Rightarrow> Store" where
  "applyMoneyDelta uid now delta meta st =
     (let type = (if num_ge delta (Fin 0) then income else expense);
          amt = Math_abs (Math_round delta);
          nextTx = \<lparr> tx_id = uid, createdAt = now, tx_type = type, amount = amt,
                     category =
                       (case Option.bind meta meta_category of
                          Some c \<Rightarrow> c
                        | None \<Rightarrow> (if type = income then ''Game Earned'' else ''Game Spent'')),
                     tx_note =
                       (case Option.bind meta meta_note of
                          Some n \<Rightarrow> n
                        | None \<Rightarrow> (if type = income then ''Earned on Map'' else ''Spent on Map'')) \<rparr>
      in persist ((state st)\<lparr>
           money := Math_max (Fin 0) (Math_round (num_add (money (state st)) delta)),
           transactions := pushTransaction nextTx (transactions (state st))\<rparr>) st)"

definition setNeed :: "NeedId \<Rightarrow> number \<Rightarrow> Store \<Rightarrow> outcome" where
  "setNeed need v st =
     (let prevComplete = allNeedsComplete (needs (state st));
          nextNeeds = clampNeeds ((needs (state st))(need := v));
          nextComplete = allNeedsComplete nextNeeds;
          st' = persist ((state st)\<lparr>needs := nextNeeds\<rparr>) st
      in if \<not> prevComplete \<and> nextComplete then advanceDayBecauseNeedsComplete st'
         else Returned st')"

definition bumpNeed :: "NeedId \<Rightarrow> number \<Rightarrow> Store \<Rightarrow> outcome" where
  "bumpNeed need delta st =
     (let current = needs (state st) need
      in setNeed need (num_add current delta) st)"

definition incrementDaysPlayed :: "number option \<Rightarrow> Store \<Rightarrow> Store" where
  "incrementDaysPlayed by_opt st = st"

definition addOwnedAccessory :: "AccessoryId \<Rightarrow> number option \<Rightarrow> Store \<Rightarrow> Store" where
  "addOwnedAccessory accessory count_opt st =
     (let cnt = (case count_opt of Some c \<Rightarrow> c | None \<Rightarrow> Fin 1);
          add = Math_max (Fin 0) (Math_floor (or0 cnt))
      in if num_le add (Fin 0) then st
         else persist ((state st)\<lparr>ownedAccessories :=
                (ownedAccessories (state st))
                  (accessory := Math_max (Fin 0)
                     (num_add (ownedAccessories (state st) accessory) add))\<rparr>) st)"

text \<open>The text of an \<open>AnimalId\<close>, for the template \<^verbatim>\<open>`Purchased ${petId}`\<close>.\<close>

fun animalName :: "AnimalId \<Rightarrow> string" where
  "animalName pig = ''pig''"
| "animalName dog = ''dog''"
| "animalName cat = ''cat''"
| "animalName fox = ''fox''"
| "animalName bunny = ''bunny''"
| "animalName unicorn = ''unicorn''"
| "animalName snake = ''snake''"
| "animalName panda = ''panda''"
| "animalName dragon = ''dragon''"

definition purchasePremiumPet :: "string \<Rightarrow> number \<Rightarrow> AnimalId \<Rightarrow> number \<Rightarrow> Store \<Rightarrow> Store" where
  "purchasePremiumPet uid now petId cost st =
     (if ownedPets (state st) petId then st
      else
        (let price = Math_max (Fin 0) (Math_round cost)
         in if num_lt (money (state st)) price then st
            else
              (let nextTx = \<lparr> tx_id = uid, createdAt = now, tx_type = expense,
                               amount = price, category = ''Pet Purchase'',
                               tx_note = ''Purchased '' @ animalName petId \<rparr>
               in persist ((state st)\<lparr>
                    money := Math_max (Fin 0) (num_sub (money (state st)) price),
                    ownedPets := (ownedPets (state st))(petId := True),
                    transactions := pushTransaction nextTx (transactions (state st))\<rparr>) st)))"

text \<open>
  One constructor for each exported mutator, so that a statement can range over every
  call of the public API. Only \<open>setNeed\<close> and \<open>bumpNeed\<close> can throw.
\<close>

datatype Mutation =
    SetSelectedPet AnimalId
  | SetEquippedAccessory AccessoryId bool
  | AddTransaction string number TransactionInput
  | ApplyMoneyDelta string number number "Meta option"
  | SetNeed NeedId number
  | BumpNeed NeedId number
  | IncrementDaysPlayed "number option"
  | AddOwnedAccessory AccessoryId "number option"
  | PurchasePremiumPet string number AnimalId number

fun apply_mutation :: "Mutation \<Rightarrow> Store \<Rightarrow> outcome" where
  "apply_mutation (SetSelectedPet a) st = Returned (setSelectedPet a st)"
| "apply_mutation (SetEquippedAccessory a e) st = Returned (setEquippedAccessory a e st)"
| "apply_mutation (AddTransaction uid now tx) st = Returned (addTransaction uid now tx st)"
| "apply_mutation (ApplyMoneyDelta uid now delta meta) st =
     Returned (applyMoneyDelta uid now delta meta st)"
| "apply_mutation (SetNeed n v) st = setNeed n v st"
| "apply_mutation (BumpNeed n d) st = bumpNeed n d st"
| "apply_mutation (IncrementDaysPlayed b) st = Returned (incrementDaysPlayed b st)"
| "apply_mutation (AddOwnedAccessory a c) st = Returned (addOwnedAccessory a c st)"
| "apply_mutation (PurchasePremiumPet uid now p c) st =
     Returned (purchasePremiumPet uid now p c st)"

text \<open>
  A run of calls, the first of the list first, each made by the application on its own:
  a call that throws does not keep the later ones from being made.
\<close>

fun run :: "Mutation list \<Rightarrow> Store \<Rightarrow> Store" where
  "run [] st = st"
| "run (m # ms) st = run ms (store_of (apply_mutation m st))"

section \<open>Parsed values\<close>











section \<open>Encoding of the typed state\<close>











section \<open>The normalizer on an arbitrary value\<close>




section \<open>Predicates and example stores used in the statements\<close>

text \<open>A state is one the store holds when committing it again changes nothing.\<close>

definition stored :: "GameState \<Rightarrow> bool" where
  "stored s = (commit s = s)"

text \<open>
  The equip invariant of the data model for one accessory, next to the fact that its
  owned count is not negative.
\<close>

definition equipOwned :: "GameState \<Rightarrow> AccessoryId \<Rightarrow> bool" where
  "equipOwned s a =
     (num_ge (ownedAccessories s a) (Fin 0) \<and>
      (equippedAccessories s a \<longrightarrow> num_lt (Fin 0) (ownedAccessories s a)))"

definition equipRequiresOwnership :: "GameState \<Rightarrow> bool" where
  "equipRequiresOwnership s = (equipOwned s collar \<and> equipOwned s leash \<and> equipOwned s headband)"

text \<open>
  A number that is a non-negative integer, and one that is a non-negative integer of at
  most 9007199254740992 (two to the power 53), up to which every integer is a double.
\<close>

fun isCount :: "number \<Rightarrow> bool" where
  "isCount (Fin q) = (0 \<le> q \<and> of_int \<lfloor>q\<rfloor> = q)"
| "isCount n = False"

definition isSafeCount :: "number \<Rightarrow> bool" where
  "isSafeCount n = (isCount n \<and> num_le n (Fin 9007199254740992))"

text \<open>
  The finite numbers of the program are doubles, the rationals that rounding leaves as
  they are.
\<close>

fun isDouble :: "number \<Rightarrow> bool" where
  "isDouble (Fin q) = (toDouble q = Fin q)"
| "isDouble n = True"

text \<open>
  A number of at least two to the power 53, where a sum is in general rounded, or
  \<open>Infinity\<close>; and a count as \<^verbatim>\<open>addOwnedAccessory\<close> produces one from 0: a
  non-negative integer or such a number.
\<close>

fun beyondSafe :: "number \<Rightarrow> bool" where
  "beyondSafe PosInf = True"
| "beyondSafe (Fin q) = (9007199254740992 \<le> q)"
| "beyondSafe n = False"

definition countlike :: "number \<Rightarrow> bool" where
  "countlike n = (isCount n \<or> beyondSafe n)"

definition accessoryCounts :: "OwnedAccessories \<Rightarrow> bool" where
  "accessoryCounts o_acc =
     (countlike (o_acc collar) \<and> countlike (o_acc leash) \<and> countlike (o_acc headband))"

text \<open>The store of a profile with nothing in \<^verbatim>\<open>localStorage\<close>.\<close>

definition freshStore :: Store where
  "freshStore = \<lparr> state = initialState None, petAges = AnObject Map.empty \<rparr>"

text \<open>
  The spec's example for the day advance: four needs at 100 and \<open>sleep\<close> at 99, all else
  as in the default state.
\<close>

definition nearlyDoneStore :: Store where
  "nearlyDoneStore =
     \<lparr> state = defaultState\<lparr>needs :=
                 defaultNeeds(Hunger := Fin 100, Thirst := Fin 100, Health := Fin 100,
                              Fun := Fin 100, Sleep := Fin 99)\<rparr>,
       petAges = AnObject Map.empty \<rparr>"

text \<open>
  The same needs in a profile loaded with \<open>daysPlayed\<close> at 9007199254740992, and the
  same store when the pet-ages entry of \<^verbatim>\<open>localStorage\<close> is \<^verbatim>\<open>null\<close>.
\<close>

definition lateStore :: Store where
  "lateStore =
     \<lparr> state = initialState (Some ((state nearlyDoneStore)\<lparr>daysPlayed := Fin 9007199254740992\<rparr>)),
       petAges = AnObject Map.empty \<rparr>"


text \<open>The default state with a balance of \<open>m\<close>.\<close>

definition walletStore :: "rat \<Rightarrow> Store" where
  "walletStore m = \<lparr> state = defaultState\<lparr>money := Fin m\<rparr>, petAges = AnObject Map.empty \<rparr>"


section \<open>Basic facts\<close>

subsection \<open>Rounding\<close>

lemma pow2_pos: "0 < pow2 e" by (simp add: pow2_def)
lemma pow2_0: "pow2 0 = 1" by (simp add: pow2_def)
lemma pow2_nat: "pow2 (int n) = 2 ^ n" by (simp add: pow2_def)
lemma pow2_Suc: "pow2 (e + 1) = 2 * pow2 e" by (simp add: pow2_def power_int_add_1)
lemma pow2_pred: "pow2 (e - 1) = pow2 e / 2"
  using pow2_Suc[of "e - 1"] by simp
lemma pow2_mono: "e \<le> e' \<Longrightarrow> pow2 e \<le> pow2 e'"
  by (simp add: pow2_def power_int_increasing)
lemma pow2_strict_mono: "e < e' \<Longrightarrow> pow2 e < pow2 e'"
  by (simp add: pow2_def power_int_strict_increasing)
lemma pow2_diff: "pow2 (a - b) = pow2 a / pow2 b"
  by (simp add: pow2_def power_int_diff)

lemma up_spec:
  "1 \<le> x \<Longrightarrow> 0 \<le> up n x \<and> up n x \<le> int n \<and> pow2 (up n x) \<le> x \<and>
     (up n x < int n \<longrightarrow> x < pow2 (up n x + 1))"
proof (induction n arbitrary: x)
  case 0
  then show ?case by (simp add: pow2_0)
next
  case (Suc n)
  show ?case
  proof (cases "x < 2")
    case True
    then show ?thesis using Suc.prems pow2_Suc[of 0] by (simp add: pow2_0)
  next
    case False
    then have "1 \<le> x / 2" by simp
    from Suc.IH[OF this] show ?thesis
      using False pow2_Suc[of "up n (x / 2)"] pow2_Suc[of "up n (x / 2) + 1"]
      by (auto simp add: add.commute)
  qed
qed

lemma down_spec:
  "0 < x \<Longrightarrow> x < 1 \<Longrightarrow> 0 < n \<Longrightarrow>
   - int n \<le> down n x \<and> down n x \<le> - 1 \<and> x < pow2 (down n x + 1) \<and>
   (- int n < down n x \<longrightarrow> pow2 (down n x) \<le> x)"
proof (induction n arbitrary: x)
  case 0
  then show ?case by simp
next
  case (Suc n)
  show ?case
  proof (cases "n = 0")
    case True
    then show ?thesis using Suc.prems by (simp add: pow2_0)
  next
    case n: False
    show ?thesis
    proof (cases "1 \<le> 2 * x")
      case True
      obtain m where m: "n = Suc m" using n by (cases n) auto
      have "down n (2 * x) = 0" using True by (simp add: m)
      then show ?thesis
        using Suc.prems True n pow2_pred[of 0] by (simp add: pow2_0)
    next
      case False
      then have "0 < 2 * x" "2 * x < 1" using Suc.prems by simp_all
      from Suc.IH[OF this] n show ?thesis
        using Suc.prems pow2_pred[of "down n (2 * x)"] pow2_pred[of "down n (2 * x) + 1"]
        by auto
    qed
  qed
qed

lemma expo_spec:
  assumes "0 < x"
  shows "- 1022 \<le> expo x \<and> expo x \<le> 1024 \<and>
         (- 1022 < expo x \<longrightarrow> pow2 (expo x) \<le> x) \<and>
         (expo x < 1024 \<longrightarrow> x < pow2 (expo x + 1))"
proof (cases "1 \<le> x")
  case True
  from up_spec[OF True, of 1024] show ?thesis using True by (simp add: expo_def)
next
  case False
  then have "x < 1" by simp
  from down_spec[OF assms this, of 1022] show ?thesis using False by (simp add: expo_def)
qed

lemma expo_ge:
  assumes "0 < x" "pow2 k \<le> x" "k \<le> 1024"
  shows "k \<le> expo x"
proof (rule ccontr)
  assume "\<not> k \<le> expo x"
  then have lt: "expo x < k" by simp
  then have "expo x < 1024" using assms(3) by simp
  then have "x < pow2 (expo x + 1)" using expo_spec[OF assms(1)] by simp
  also have "\<dots> \<le> pow2 k" using lt by (intro pow2_mono) simp
  finally show False using assms(2) by simp
qed

lemma expo_le:
  assumes "0 < x" "x < pow2 (k + 1)" "- 1022 \<le> k"
  shows "expo x \<le> k"
proof (rule ccontr)
  assume "\<not> expo x \<le> k"
  then have lt: "k < expo x" by simp
  then have "- 1022 < expo x" using assms(3) by simp
  then have "pow2 (expo x) \<le> x" using expo_spec[OF assms(1)] by simp
  moreover have "pow2 (k + 1) \<le> pow2 (expo x)" using lt by (intro pow2_mono) simp
  ultimately show False using assms(2) by simp
qed

lemma expo_unique:
  assumes "0 < x" "pow2 k \<le> x" "x < pow2 (k + 1)" "- 1022 \<le> k" "k \<le> 1023"
  shows "expo x = k"
  using expo_ge[OF assms(1,2)] expo_le[OF assms(1,3,4)] assms(5) by simp

lemma roundEven_int: "roundEven (of_int k) = k"
  by (simp add: roundEven_def)

lemma roundEven_ge_floor: "\<lfloor>z\<rfloor> \<le> roundEven z"
  by (simp add: roundEven_def Let_def)

lemma roundEven_ge: "of_int k \<le> z \<Longrightarrow> k \<le> roundEven z"
  using roundEven_ge_floor[of z] by (meson le_floor_iff order_trans)

lemma toDouble_0: "toDouble 0 = Fin 0"
  by (simp add: toDouble_def)

lemma toDouble_exact:
  assumes "q / pow2 (expo \<bar>q\<bar> - 52) = of_int k" "\<bar>q\<bar> < pow2 1024"
  shows "toDouble q = Fin q"
proof (cases "q = 0")
  case True
  then show ?thesis by (simp add: toDouble_0)
next
  case False
  have u: "0 < pow2 (expo \<bar>q\<bar> - 52)" by (rule pow2_pos)
  have "of_int k * pow2 (expo \<bar>q\<bar> - 52) = q"
    using u assms(1) by (simp add: field_simps)
  then have r: "of_int (roundEven (q / pow2 (expo \<bar>q\<bar> - 52))) * pow2 (expo \<bar>q\<bar> - 52) = q"
    by (simp add: assms(1) roundEven_int)
  show ?thesis
    using False assms(2) by (simp add: toDouble_def Let_def r abs_less_iff)
qed

lemma pow2_53: "pow2 53 = 9007199254740992"
  by (simp add: pow2_def)

lemma pow2_52: "pow2 52 = 4503599627370496"
  by (simp add: pow2_def)

lemma pow2_1024_big: "(9007199254740992::rat) < pow2 1024"
proof -
  have "pow2 53 < pow2 1024" by (rule pow2_strict_mono) simp
  then show ?thesis by (simp add: pow2_53)
qed

lemma toDouble_int:
  assumes "x \<in> \<int>" "\<bar>x\<bar> \<le> 9007199254740992"
  shows "toDouble x = Fin x"
proof (cases "x = 0")
  case True
  then show ?thesis by (simp add: toDouble_0)
next
  case False
  obtain n :: int where n: "x = of_int n" using assms(1) by (auto elim: Ints_cases)
  let ?a = "\<bar>x\<bar>"
  have a1: "1 \<le> ?a" using False n by (simp flip: of_int_abs) 
  then have pos: "0 < ?a" by simp
  have e0: "0 \<le> expo ?a"
    using expo_ge[OF pos, of 0] a1 by (simp add: pow2_0)
  then have "pow2 (expo ?a) \<le> ?a" using expo_spec[OF pos] by simp
  then have "pow2 (expo ?a) \<le> pow2 53" using assms(2) by (simp add: pow2_53)
  then have e53: "expo ?a \<le> 53"
    using pow2_strict_mono[of 53 "expo ?a"] by (cases "expo ?a \<le> 53") auto
  have "\<exists>k. x / pow2 (expo ?a - 52) = of_int k"
  proof (cases "expo ?a \<le> 52")
    case True
    then obtain m where m: "52 - expo ?a = int m"
      using nonneg_int_cases[of "52 - expo ?a"] by auto
    have "expo ?a - 52 = - int m" using m by simp
    then have "pow2 (expo ?a - 52) = 1 / pow2 (int m)"
      using pow2_diff[of 0 "int m"] by (simp add: pow2_0)
    then have "x / pow2 (expo ?a - 52) = of_int (n * 2 ^ m)"
      by (simp add: n pow2_nat)
    then show ?thesis by blast
  next
    case False
    then have e: "expo ?a = 53" using e53 by simp
    have "pow2 53 \<le> ?a" using expo_spec[OF pos] e by simp
    then have "?a = 9007199254740992" using assms(2) by (simp add: pow2_53)
    then have "x = 9007199254740992 \<or> x = - 9007199254740992" by (auto simp: abs_if split: if_splits)
    then have "x / pow2 (expo ?a - 52) = of_int 4503599627370496 \<or>
               x / pow2 (expo ?a - 52) = of_int (- 4503599627370496)"
      using pow2_Suc[of 0] by (auto simp: e pow2_0)
    then show ?thesis by blast
  qed
  then obtain k where k: "x / pow2 (expo ?a - 52) = of_int k" by blast
  have "?a < pow2 1024" using assms(2) pow2_1024_big by simp
  from toDouble_exact[OF k this] show ?thesis .
qed

lemma toDouble_tie: "toDouble 9007199254740993 = Fin 9007199254740992"
proof -
  have e: "expo 9007199254740993 = 53"
    using pow2_Suc[of 53] by (intro expo_unique) (simp_all add: pow2_53)
  have u: "pow2 1 = 2" using pow2_Suc[of 0] by (simp add: pow2_0)
  have f: "\<lfloor>9007199254740993 / 2 :: rat\<rfloor> = 4503599627370496"
    by (rule floor_unique) simp_all
  have r: "roundEven (9007199254740993 / 2) = 4503599627370496"
    by (simp add: roundEven_def Let_def f)
  have "(9007199254740992::rat) < pow2 1024" by (rule pow2_1024_big)
  moreover have "0 < pow2 1024" by (rule pow2_pos)
  ultimately show ?thesis
    by (simp add: toDouble_def Let_def e u r)
qed

lemma toDouble_ge:
  assumes "pow2 k \<le> x" "0 \<le> k" "k \<le> 1023"
  shows "toDouble x = PosInf \<or> (\<exists>r. toDouble x = Fin r \<and> pow2 k \<le> r)"
proof -
  have pos: "0 < x" using pow2_pos[of k] assms(1) by simp
  then have ax: "\<bar>x\<bar> = x" by simp
  have ke: "k \<le> expo x" using expo_ge[OF pos assms(1)] assms(3) by simp
  then have "pow2 (expo x) \<le> x" using expo_spec[OF pos] assms(2) by simp
  let ?u = "pow2 (expo x - 52)"
  have u: "0 < ?u" by (rule pow2_pos)
  have "pow2 (expo x) / ?u = pow2 52"
    using pow2_diff[of "expo x" "expo x - 52"] by simp
  then have "of_int 4503599627370496 \<le> x / ?u"
    using \<open>pow2 (expo x) \<le> x\<close> u by (simp add: pow2_52 field_simps)
  then have m: "4503599627370496 \<le> roundEven (x / ?u)" by (rule roundEven_ge)
  let ?r = "of_int (roundEven (x / ?u)) * ?u"
  have "pow2 52 * ?u \<le> ?r"
    using m u by (simp add: pow2_52 mult_right_mono)
  moreover have "pow2 52 * ?u = pow2 (expo x)"
    using pow2_diff[of "expo x" 52] pow2_pos[of 52] by simp
  ultimately have "pow2 (expo x) \<le> ?r" by simp
  then have kr: "pow2 k \<le> ?r" using pow2_mono[OF ke] by simp
  then have rpos: "0 < ?r" using pow2_pos[of k] by simp
  have np: "\<not> ?r \<le> - pow2 1024" using rpos pow2_pos[of 1024] by simp
  show ?thesis
    using pos kr np by (simp add: toDouble_def Let_def ax)
qed

lemma toDouble_half: "toDouble (1 / 2) = Fin (1 / 2)"
proof -
  have e: "expo (1 / 2) = - 1"
    using pow2_pred[of 0] by (intro expo_unique) (simp_all add: pow2_0)
  have p: "pow2 (- 53) = 1 / 9007199254740992"
    using pow2_diff[of 0 53] by (simp add: pow2_0 pow2_53)
  have "(1 / 2) / pow2 (expo \<bar>1 / 2 :: rat\<bar> - 52) = of_int 4503599627370496"
    by (simp add: e p)
  moreover have "\<bar>1 / 2 :: rat\<bar> < pow2 1024" using pow2_1024_big by simp
  ultimately show ?thesis by (rule toDouble_exact)
qed

lemma toDouble_Fin:
  assumes "toDouble q = Fin q" "q \<noteq> 0"
  shows "of_int (roundEven (q / pow2 (expo \<bar>q\<bar> - 52))) * pow2 (expo \<bar>q\<bar> - 52) = q"
  using assms by (simp add: toDouble_def Let_def split: if_splits)

lemma toDouble_pos:
  assumes "0 < y" "of_int k \<le> y / pow2 (expo y - 52)" "0 < k"
  shows "toDouble y = PosInf \<or>
         (\<exists>r. toDouble y = Fin r \<and> of_int k * pow2 (expo y - 52) \<le> r)"
proof -
  let ?u = "pow2 (expo y - 52)"
  have u: "0 < ?u" by (rule pow2_pos)
  have ay: "\<bar>y\<bar> = y" using assms(1) by simp
  have "k \<le> roundEven (y / ?u)" using assms(2) by (rule roundEven_ge)
  then have "(of_int k :: rat) \<le> of_int (roundEven (y / ?u))" by simp
  then have le: "of_int k * ?u \<le> of_int (roundEven (y / ?u)) * ?u"
    using u by (simp add: mult_right_mono)
  have "0 < of_int k * ?u" using assms(3) u by simp
  then have pos: "0 < of_int (roundEven (y / ?u)) * ?u" using le by simp
  have "0 < pow2 1024" by (rule pow2_pos)
  then have "\<not> of_int (roundEven (y / ?u)) * ?u \<le> - pow2 1024" using pos by simp
  then show ?thesis
    using assms(1) le by (simp add: toDouble_def Let_def ay)
qed

lemma toDouble_grow:
  assumes "toDouble q = Fin q" "0 < q" "q \<le> y"
  shows "toDouble y = PosInf \<or> (\<exists>r. toDouble y = Fin r \<and> q \<le> r)"
proof -
  have ypos: "0 < y" using assms(2,3) by simp
  have aq: "\<bar>q\<bar> = q" using assms(2) by simp
  let ?uq = "pow2 (expo q - 52)" and ?uy = "pow2 (expo y - 52)"
  have uy: "0 < ?uy" by (rule pow2_pos)
  note sq = expo_spec[OF assms(2)] and sy = expo_spec[OF ypos]
  have le: "expo q \<le> expo y"
  proof (cases "- 1022 < expo q")
    case True
    then have "pow2 (expo q) \<le> y" using sq assms(3) by simp
    then show ?thesis using expo_ge[OF ypos] sq by simp
  next
    case False
    then show ?thesis using sq sy by simp
  qed
  have "\<exists>k. 0 < k \<and> of_int k \<le> y / ?uy \<and> q \<le> of_int k * ?uy"
  proof (cases "expo q = expo y")
    case True
    let ?k = "roundEven (q / ?uq)"
    have k: "of_int ?k * ?uq = q"
      using toDouble_Fin[OF assms(1)] assms(2) by (simp add: aq)
    then have "0 < of_int ?k * ?uq" using assms(2) by simp
    then have "0 < (of_int ?k :: rat)" using pow2_pos[of "expo q - 52"]
      by (simp add: zero_less_mult_iff)
    then have "0 < ?k" by simp
    moreover have "of_int ?k = q / ?uq"
      using k pow2_pos[of "expo q - 52"] by (simp add: field_simps)
    then have "of_int ?k \<le> y / ?uy"
      using assms(3) uy by (simp add: True divide_right_mono)
    moreover have "q \<le> of_int ?k * ?uy" using k by (simp add: True)
    ultimately show ?thesis by blast
  next
    case False
    then have lt: "expo q < expo y" using le by simp
    then have "expo q < 1024" "- 1022 < expo y" using sq sy by simp_all
    then have a: "q < pow2 (expo q + 1)" and b: "pow2 (expo y) \<le> y" using sq sy by simp_all
    have "pow2 (expo q + 1) \<le> pow2 (expo y)" using lt by (intro pow2_mono) simp
    then have c: "q \<le> pow2 (expo y)" using a by simp
    have d: "pow2 (expo y) / ?uy = pow2 52"
      using pow2_diff[of "expo y" "expo y - 52"] by simp
    then have e: "pow2 (expo y) = of_int 4503599627370496 * ?uy"
      using uy by (simp add: pow2_52 field_simps)
    have "of_int 4503599627370496 \<le> y / ?uy"
      using b uy e by (simp add: field_simps)
    moreover have "q \<le> of_int 4503599627370496 * ?uy" using c e by simp
    ultimately show ?thesis by (intro exI[of _ 4503599627370496]) simp
  qed
  then obtain k where k: "0 < k" "of_int k \<le> y / ?uy" "q \<le> of_int k * ?uy" by blast
  from toDouble_pos[OF ypos k(2) k(1)] k(3) show ?thesis by auto
qed

subsection \<open>Numbers\<close>

lemma num_add_int:
  "x \<in> \<int> \<Longrightarrow> y \<in> \<int> \<Longrightarrow> \<bar>x + y\<bar> \<le> 9007199254740992 \<Longrightarrow>
   num_add (Fin x) (Fin y) = Fin (x + y)"
  by (simp add: toDouble_int)

lemma num_sub_int:
  "x \<in> \<int> \<Longrightarrow> y \<in> \<int> \<Longrightarrow> \<bar>x - y\<bar> \<le> 9007199254740992 \<Longrightarrow>
   num_sub (Fin x) (Fin y) = Fin (x - y)"
  by (simp add: num_sub_def toDouble_int)

lemma num_add_ge:
  assumes "pow2 k \<le> x + y" "0 \<le> k" "k \<le> 1023"
  shows "num_add (Fin x) (Fin y) = PosInf \<or> (\<exists>r. num_add (Fin x) (Fin y) = Fin r \<and> pow2 k \<le> r)"
  using toDouble_ge[OF assms] by simp

lemma num_add_ge1:
  assumes "0 \<le> x" "1 \<le> y"
  shows "num_add (Fin x) (Fin y) = PosInf \<or> (\<exists>r. num_add (Fin x) (Fin y) = Fin r \<and> 1 \<le> r)"
  using num_add_ge[of 0 x y] assms by (simp add: pow2_0)

lemma toDouble_1: "toDouble 1 = Fin 1"
  by (rule toDouble_int) simp_all

lemma num_add_grow:
  assumes "toDouble q = Fin q" "0 \<le> q"
  shows "num_le (Fin q) (num_add (Fin q) (Fin 1))"
proof (cases "q = 0")
  case True
  then show ?thesis by (simp add: toDouble_1)
next
  case False
  then have "0 < q" using assms(2) by simp
  from toDouble_grow[OF assms(1) this, of "q + 1"] show ?thesis by auto
qed

lemma floor0_idem: "Math_max (Fin 0) (or0 (Math_max (Fin 0) (or0 d))) = Math_max (Fin 0) (or0 d)"
  by (cases d) simp_all

lemma floor0_nonneg: "num_ge (Math_max (Fin 0) (or0 d)) (Fin 0)"
  by (cases d) (simp_all add: num_ge_def)

lemma floor0_add1:
  assumes "Math_max (Fin 0) (or0 d) = d"
  shows "Math_max (Fin 0) (or0 (num_add d (Fin 1))) = num_add d (Fin 1)"
proof (cases d)
  case (Fin q)
  then have "0 \<le> q" using assms by (simp split: if_splits)
  from num_add_ge1[OF this, of 1] show ?thesis
    unfolding Fin by auto
qed (use assms in simp_all)

subsection \<open>Clamping\<close>

lemma clampNeed_Fin: "clampNeed (Fin x) = Fin (of_int (max 0 (min 100 (round x))))"
  by (simp add: clampNeed_def max_def min_def)

lemma clampNeed_nonfinite: "\<not> isFinite v \<Longrightarrow> clampNeed v = Fin 0"
  by (simp add: clampNeed_def)

lemma round_above: "(100::rat) < x \<Longrightarrow> 100 \<le> round x"
  using round_mono[of 100 x] by simp

lemma round_below: "x < (0::rat) \<Longrightarrow> round x \<le> 0"
  using round_mono[of x 0] by simp

lemma round_within: "(0::rat) \<le> x \<Longrightarrow> x \<le> 100 \<Longrightarrow> 0 \<le> round x \<and> round x \<le> 100"
  using round_mono[of 0 x] round_mono[of x 100] by simp

lemma clampNeed_range: "\<exists>k. 0 \<le> k \<and> k \<le> 100 \<and> clampNeed v = Fin (of_int k)"
proof (cases v)
  case (Fin x)
  show ?thesis unfolding Fin clampNeed_Fin
    by (rule exI[of _ "max 0 (min 100 (round x))"]) simp
qed (auto simp: clampNeed_def intro: exI[of _ 0])

lemma clampNeed_idem: "clampNeed (clampNeed v) = clampNeed v"
  by (cases v) (simp_all add: clampNeed_def max_def min_def)

lemma clampNeeds_apply: "clampNeeds nd k = clampNeed (nd k)"
  by (cases k) (simp_all add: clampNeeds_def)

lemma clampNeeds_idem: "clampNeeds (clampNeeds nd) = clampNeeds nd"
  by (rule ext) (simp add: clampNeeds_apply clampNeed_idem)

lemma clampNeeds_default: "clampNeeds defaultNeeds = defaultNeeds"
  by (rule ext) (simp add: clampNeeds_apply defaultNeeds_def clampNeed_def)

subsection \<open>Commit\<close>

lemma normalize_sel:
  "needs (normalize s) = clampNeeds (needs s)"
  "money (normalize s) = Math_max (Fin 0) (or0 (money s))"
  "animalId (normalize s) = animalId s"
  "ownedPets (normalize s) = ownedPets s"
  "ownedAccessories (normalize s) = ownedAccessories s"
  "equippedAccessories (normalize s) = equippedAccessories s"
  "badges (normalize s) = badges s"
  "daysPlayed (normalize s) = Math_max (Fin 0) (or0 (daysPlayed s))"
  "transactions (normalize s) = transactions s"
  by (simp_all add: normalize_def)

lemma commit_sel:
  "needs (commit s) = clampNeeds (needs s)"
  "money (commit s) = Math_max (Fin 0) (or0 (money s))"
  "animalId (commit s) = animalId s"
  "ownedPets (commit s) = ownedPets s"
  "ownedAccessories (commit s) = ownedAccessories s"
  "equippedAccessories (commit s) = equippedAccessories s"
  "badges (commit s) = computeBadges (normalize s)"
  "daysPlayed (commit s) = Math_max (Fin 0) (or0 (daysPlayed s))"
  "transactions (commit s) = transactions s"
  by (simp_all add: commit_def Let_def normalize_sel)

lemma persist_sel:
  "state (persist raw st) = commit raw"
  "petAges (persist raw st) = petAges st"
  by (simp_all add: persist_def)


lemma computeBadges_cong:
  "ownedAccessories s = ownedAccessories t \<Longrightarrow> daysPlayed s = daysPlayed t \<Longrightarrow>
   computeBadges s = computeBadges t"
  by (simp add: computeBadges_def)

lemma commit_idem: "commit (commit s) = commit s"
proof -
  have "computeBadges (normalize (commit s)) = computeBadges (normalize s)"
    by (rule computeBadges_cong) (simp_all add: normalize_sel commit_sel floor0_idem)
  then show ?thesis
    by (simp add: commit_def Let_def normalize_def clampNeeds_idem floor0_idem)
qed

lemma stored_commit: "stored (commit s)"
  by (simp add: stored_def commit_idem)

lemma stored_persist: "stored (state (persist raw st))"
  by (simp add: persist_sel stored_commit)

lemma stored_days: "stored s \<Longrightarrow> Math_max (Fin 0) (or0 (daysPlayed s)) = daysPlayed s"
  unfolding stored_def by (metis commit_sel(8))

lemma stored_money: "stored s \<Longrightarrow> Math_max (Fin 0) (or0 (money s)) = money s"
  unfolding stored_def by (metis commit_sel(2))

lemma stored_needs: "stored s \<Longrightarrow> clampNeeds (needs s) = needs s"
  unfolding stored_def by (metis commit_sel(1))

lemma stored_badges: "stored s \<Longrightarrow> badges s = computeBadges s"
proof -
  assume st: "stored s"
  have "computeBadges (normalize s) = computeBadges s"
    by (rule computeBadges_cong) (simp_all add: normalize_sel stored_days[OF st])
  then show ?thesis
    using st unfolding stored_def by (metis commit_sel(7))
qed

lemma commit_defaultState: "commit defaultState = defaultState"
  by (simp add: commit_def Let_def normalize_def defaultState_def clampNeeds_default
      computeBadges_def totalAccessoriesOwned_def num_ge_def defaultBadges_def toDouble_0)

lemma stored_defaultState: "stored defaultState"
  by (simp add: stored_def commit_defaultState)

lemma initialState_None: "initialState None = defaultState"
  by (simp add: initialState_def Let_def defaultState_def computeBadges_def
      totalAccessoriesOwned_def num_ge_def defaultBadges_def toDouble_0)

lemma initialState_Some: "initialState (Some l) = commit l"
  by (simp add: initialState_def commit_def)

lemma stored_initialState: "stored (initialState loaded)"
  by (cases loaded) (simp_all add: initialState_None initialState_Some stored_defaultState stored_commit)

lemma state_freshStore: "state freshStore = defaultState"
  by (simp add: freshStore_def initialState_None)

subsection \<open>Day advance and \<open>setNeed\<close>\<close>

lemma not_complete_after_reset: "\<not> allNeedsComplete (clampNeeds (defaultNeeds(need := v)))"
  by (cases need)
     (simp_all add: allNeedsComplete_def clampNeeds_apply defaultNeeds_def clampNeed_def num_ge_def)

lemma agePlusOne_throws: "(agePlusOne v = Inl TypeError) = (v = Some AgeUnconvertible)"
  by (cases v rule: agePlusOne.cases) simp_all

lemma agePlusOne_returns: "v \<noteq> Some AgeUnconvertible \<Longrightarrow> \<exists>w. agePlusOne v = Inr w"
  by (cases v rule: agePlusOne.cases) simp_all

lemma agePlusOne_convertible: "agePlusOne v = Inr w \<Longrightarrow> w \<noteq> Some AgeUnconvertible"
  by (cases v rule: agePlusOne.cases) (auto simp add: storedAge_def split: if_splits)

lemma ageBumpThrows_persist:
  "animalId s = animalId (state st) \<Longrightarrow> ageBumpThrows (persist s st) = ageBumpThrows st"
  by (cases "petAges st") (simp_all add: ageBumpThrows_def persist_def commit_sel)

lemma advance_throws:
  "ageBumpThrows st \<Longrightarrow> advanceDayBecauseNeedsComplete st = Threw TypeError st"
  by (cases "petAges st")
     (auto simp add: ageBumpThrows_def advanceDayBecauseNeedsComplete_def Let_def)


lemma advance_sel:
  assumes "\<not> ageBumpThrows st"
  shows "daysPlayed (state (store_of (advanceDayBecauseNeedsComplete st))) =
           Math_max (Fin 0) (or0 (num_add (daysPlayed (state st)) (Fin 1)))"
    and "needs (state (store_of (advanceDayBecauseNeedsComplete st))) = defaultNeeds"
    and "transactions (state (store_of (advanceDayBecauseNeedsComplete st))) = transactions (state st)"
    and "ownedAccessories (state (store_of (advanceDayBecauseNeedsComplete st))) =
           ownedAccessories (state st)"
    and "equippedAccessories (state (store_of (advanceDayBecauseNeedsComplete st))) =
           equippedAccessories (state st)"
    and "stored (state (store_of (advanceDayBecauseNeedsComplete st)))"
proof -
  have "petAges st = AnArray \<or>
        (\<exists>ages w. petAges st = AnObject ages \<and> agePlusOne (ages (animalId (state st))) = Inr w)"
  proof (cases "petAges st")
    case (AnObject ages)
    then have "ages (animalId (state st)) \<noteq> Some AgeUnconvertible"
      using assms by (simp add: ageBumpThrows_def)
    from agePlusOne_returns[OF this] show ?thesis using AnObject by simp
  qed (use assms in \<open>simp_all add: ageBumpThrows_def\<close>)
  then consider "petAges st = AnArray"
    | ages w where "petAges st = AnObject ages" "agePlusOne (ages (animalId (state st))) = Inr w"
    by blast
  then have
    "daysPlayed (state (store_of (advanceDayBecauseNeedsComplete st))) =
           Math_max (Fin 0) (or0 (num_add (daysPlayed (state st)) (Fin 1))) \<and>
     needs (state (store_of (advanceDayBecauseNeedsComplete st))) = defaultNeeds \<and>
     transactions (state (store_of (advanceDayBecauseNeedsComplete st))) = transactions (state st) \<and>
     ownedAccessories (state (store_of (advanceDayBecauseNeedsComplete st))) =
           ownedAccessories (state st) \<and>
     equippedAccessories (state (store_of (advanceDayBecauseNeedsComplete st))) =
           equippedAccessories (state st) \<and>
     stored (state (store_of (advanceDayBecauseNeedsComplete st)))"
    by cases
       (simp_all add: advanceDayBecauseNeedsComplete_def Let_def persist_sel commit_sel
          clampNeeds_default stored_commit)
  then show
    "daysPlayed (state (store_of (advanceDayBecauseNeedsComplete st))) =
           Math_max (Fin 0) (or0 (num_add (daysPlayed (state st)) (Fin 1)))"
    "needs (state (store_of (advanceDayBecauseNeedsComplete st))) = defaultNeeds"
    "transactions (state (store_of (advanceDayBecauseNeedsComplete st))) = transactions (state st)"
    "ownedAccessories (state (store_of (advanceDayBecauseNeedsComplete st))) =
           ownedAccessories (state st)"
    "equippedAccessories (state (store_of (advanceDayBecauseNeedsComplete st))) =
           equippedAccessories (state st)"
    "stored (state (store_of (advanceDayBecauseNeedsComplete st)))"
    by simp_all
qed

lemma ageBumpThrows_advance:
  "ageBumpThrows (store_of (advanceDayBecauseNeedsComplete st)) = ageBumpThrows st"
proof (cases "petAges st")
  case (AnObject ages)
  show ?thesis
  proof (cases "agePlusOne (ages (animalId (state st)))")
    case (Inl e)
    then show ?thesis using AnObject by (simp add: advanceDayBecauseNeedsComplete_def Let_def)
  next
    case (Inr w)
    then have "w \<noteq> Some AgeUnconvertible" "ages (animalId (state st)) \<noteq> Some AgeUnconvertible"
      using agePlusOne_convertible by auto
    then show ?thesis
      using AnObject Inr
      by (simp add: advanceDayBecauseNeedsComplete_def Let_def ageBumpThrows_def persist_def commit_sel)
  qed
qed (simp_all add: advanceDayBecauseNeedsComplete_def ageBumpThrows_def persist_def commit_sel)

text \<open>The day advance runs when the update completes the needs and the ages entry lets it.\<close>

lemma setNeed_unfold:
  "setNeed need v st =
     (if \<not> allNeedsComplete (needs (state st)) \<and>
         allNeedsComplete (clampNeeds ((needs (state st))(need := v)))
      then advanceDayBecauseNeedsComplete
             (persist ((state st)\<lparr>needs := clampNeeds ((needs (state st))(need := v))\<rparr>) st)
      else Returned (persist ((state st)\<lparr>needs := clampNeeds ((needs (state st))(need := v))\<rparr>) st))"
  by (simp add: setNeed_def Let_def)

lemma setNeed_days:
  "daysPlayed (state (store_of (setNeed need v st))) =
     (if \<not> allNeedsComplete (needs (state st)) \<and>
         allNeedsComplete (clampNeeds ((needs (state st))(need := v))) \<and>
         \<not> ageBumpThrows st
      then Math_max (Fin 0) (or0 (num_add (Math_max (Fin 0) (or0 (daysPlayed (state st)))) (Fin 1)))
      else Math_max (Fin 0) (or0 (daysPlayed (state st))))"
  by (simp add: setNeed_unfold advance_sel advance_throws ageBumpThrows_persist persist_sel commit_sel)

lemma setNeed_needs:
  "needs (state (store_of (setNeed need v st))) =
     (if \<not> allNeedsComplete (needs (state st)) \<and>
         allNeedsComplete (clampNeeds ((needs (state st))(need := v))) \<and>
         \<not> ageBumpThrows st
      then defaultNeeds
      else clampNeeds ((needs (state st))(need := v)))"
  by (simp add: setNeed_unfold advance_sel advance_throws ageBumpThrows_persist persist_sel commit_sel
      clampNeeds_idem)



lemma setNeed_ages_kind: "ageBumpThrows (store_of (setNeed need v st)) = ageBumpThrows st"
  by (simp add: setNeed_unfold ageBumpThrows_advance ageBumpThrows_persist)

lemma stored_setNeed: "stored (state (store_of (setNeed need v st)))"
  by (cases "ageBumpThrows st")
     (simp_all add: setNeed_unfold advance_sel advance_throws ageBumpThrows_persist persist_sel
        stored_commit)

lemma stored_nearlyDone: "stored (state nearlyDoneStore)"
proof -
  have "clampNeeds (defaultNeeds(Hunger := Fin 100, Thirst := Fin 100, Health := Fin 100,
                              Fun := Fin 100, Sleep := Fin 99)) =
        defaultNeeds(Hunger := Fin 100, Thirst := Fin 100, Health := Fin 100,
                              Fun := Fin 100, Sleep := Fin 99)"
    by (rule ext) (simp add: clampNeeds_apply defaultNeeds_def clampNeed_def)
  then show ?thesis
    by (simp add: stored_def nearlyDoneStore_def commit_def Let_def normalize_def defaultState_def
        computeBadges_def totalAccessoriesOwned_def num_ge_def defaultBadges_def toDouble_0)
qed


subsection \<open>The normalizer on an arbitrary value\<close>






















subsection \<open>What each mutator leaves alone\<close>

lemma setNeed_keeps:
  "transactions (state (store_of (setNeed need v st))) = transactions (state st)"
  "ownedAccessories (state (store_of (setNeed need v st))) = ownedAccessories (state st)"
  "equippedAccessories (state (store_of (setNeed need v st))) = equippedAccessories (state st)"
  by (cases "ageBumpThrows st";
      simp add: setNeed_unfold advance_sel advance_throws ageBumpThrows_persist persist_sel commit_sel)+

lemma bumpNeed_setNeed:
  "bumpNeed need delta st = setNeed need (num_add (needs (state st) need) delta) st"
  by (simp add: bumpNeed_def Let_def)

lemma setSelectedPet_keeps:
  "transactions (state (setSelectedPet a st)) = transactions (state st)"
  "ownedAccessories (state (setSelectedPet a st)) = ownedAccessories (state st)"
  "equippedAccessories (state (setSelectedPet a st)) = equippedAccessories (state st)"
  "daysPlayed (state (setSelectedPet a st)) = Math_max (Fin 0) (or0 (daysPlayed (state st)))"
  by (simp_all add: setSelectedPet_def persist_sel commit_sel)

lemma setEquippedAccessory_keeps:
  "transactions (state (setEquippedAccessory a e st)) = transactions (state st)"
  "ownedAccessories (state (setEquippedAccessory a e st)) = ownedAccessories (state st)"
  by (simp_all add: setEquippedAccessory_def persist_sel commit_sel)

lemma addOwnedAccessory_keeps:
  "transactions (state (addOwnedAccessory a c st)) = transactions (state st)"
  "equippedAccessories (state (addOwnedAccessory a c st)) = equippedAccessories (state st)"
  by (simp_all add: addOwnedAccessory_def Let_def persist_sel commit_sel)

lemma addTransaction_keeps:
  "ownedAccessories (state (addTransaction uid now tx st)) = ownedAccessories (state st)"
  "equippedAccessories (state (addTransaction uid now tx st)) = equippedAccessories (state st)"
  "daysPlayed (state (addTransaction uid now tx st)) = Math_max (Fin 0) (or0 (daysPlayed (state st)))"
  by (simp_all add: addTransaction_def Let_def persist_sel commit_sel)

lemma applyMoneyDelta_keeps:
  "ownedAccessories (state (applyMoneyDelta uid now delta meta st)) = ownedAccessories (state st)"
  "equippedAccessories (state (applyMoneyDelta uid now delta meta st)) = equippedAccessories (state st)"
  "daysPlayed (state (applyMoneyDelta uid now delta meta st)) =
     Math_max (Fin 0) (or0 (daysPlayed (state st)))"
  by (simp_all add: applyMoneyDelta_def Let_def persist_sel commit_sel)

lemma purchasePremiumPet_keeps:
  "ownedAccessories (state (purchasePremiumPet uid now p c st)) = ownedAccessories (state st)"
  "equippedAccessories (state (purchasePremiumPet uid now p c st)) = equippedAccessories (state st)"
  by (simp_all add: purchasePremiumPet_def Let_def persist_sel commit_sel)

lemma stored_apply_mutation:
  assumes "stored (state st)"
  shows "stored (state (store_of (apply_mutation m st)))"
proof (cases m)
  case (SetEquippedAccessory a e)
  then show ?thesis using assms by (simp add: setEquippedAccessory_def stored_persist)
next
  case (AddOwnedAccessory a c)
  then show ?thesis using assms by (simp add: addOwnedAccessory_def Let_def stored_persist)
next
  case (PurchasePremiumPet uid now p c)
  then show ?thesis using assms by (simp add: purchasePremiumPet_def Let_def stored_persist)
next
  case (BumpNeed n d)
  then show ?thesis by (simp add: bumpNeed_setNeed stored_setNeed)
qed (use assms in \<open>simp_all add: setSelectedPet_def addTransaction_def applyMoneyDelta_def
      Let_def stored_persist stored_setNeed incrementDaysPlayed_def\<close>)

lemma stored_run: "stored (state st) \<Longrightarrow> stored (state (run ms st))"
  by (induction ms arbitrary: st) (simp_all add: stored_apply_mutation)

lemma run_append: "run (ms @ ms') st = run ms' (run ms st)"
  by (induction ms arbitrary: st) simp_all


subsection \<open>Owned accessories\<close>

lemma add_shape:
  "\<not> num_le (Math_max (Fin 0) (Math_floor (or0 c))) (Fin 0) \<Longrightarrow>
   Math_max (Fin 0) (Math_floor (or0 c)) = PosInf \<or>
   (\<exists>n::int. 1 \<le> n \<and> Math_max (Fin 0) (Math_floor (or0 c)) = Fin (of_int n))"
proof (cases c)
  case (Fin x)
  assume "\<not> num_le (Math_max (Fin 0) (Math_floor (or0 c))) (Fin 0)"
  then have "0 < \<lfloor>x\<rfloor>" "Math_max (Fin 0) (Math_floor (or0 c)) = Fin (of_int \<lfloor>x\<rfloor>)"
    unfolding Fin by (simp_all split: if_splits)
  then show ?thesis by (intro disjI2 exI[of _ "\<lfloor>x\<rfloor>"]) simp
qed simp_all

lemma addOwnedAccessory_owned:
  "ownedAccessories (state (addOwnedAccessory a c st)) =
     (let add = Math_max (Fin 0) (Math_floor (or0 (case c of Some n \<Rightarrow> n | None \<Rightarrow> Fin 1)))
      in if num_le add (Fin 0) then ownedAccessories (state st)
         else (ownedAccessories (state st))
                (a := Math_max (Fin 0) (num_add (ownedAccessories (state st) a) add)))"
  by (simp add: addOwnedAccessory_def Let_def persist_sel commit_sel)

lemma owned_grows:
  assumes "num_ge x (Fin 0)"
    and "\<not> num_le (Math_max (Fin 0) (Math_floor (or0 c))) (Fin 0)"
  shows "num_ge (Math_max (Fin 0) (num_add x (Math_max (Fin 0) (Math_floor (or0 c))))) (Fin 0)"
    and "num_lt (Fin 0) (Math_max (Fin 0) (num_add x (Math_max (Fin 0) (Math_floor (or0 c)))))"
proof -
  let ?add = "Math_max (Fin 0) (Math_floor (or0 c))"
  have "num_ge (Math_max (Fin 0) (num_add x ?add)) (Fin 0) \<and>
        num_lt (Fin 0) (Math_max (Fin 0) (num_add x ?add))"
  proof (cases x)
    case (Fin q)
    then have q: "0 \<le> q" using assms(1) by (simp add: num_ge_def)
    from add_shape[OF assms(2)] show ?thesis
    proof
      assume "?add = PosInf"
      then show ?thesis by (simp add: Fin num_ge_def)
    next
      assume "\<exists>n::int. 1 \<le> n \<and> ?add = Fin (of_int n)"
      then obtain n :: int where n: "1 \<le> n" "?add = Fin (of_int n)" by blast
      then have "(1::rat) \<le> of_int n" by simp
      from num_add_ge1[OF q this] show ?thesis
        unfolding Fin n(2) by (auto simp add: num_ge_def)
    qed
  next
    case PosInf
    from add_shape[OF assms(2)] show ?thesis
      unfolding PosInf by (auto simp add: num_ge_def)
  qed (use assms(1) in \<open>simp_all add: num_ge_def\<close>)
  then show "num_ge (Math_max (Fin 0) (num_add x ?add)) (Fin 0)"
    and "num_lt (Fin 0) (Math_max (Fin 0) (num_add x ?add))"
    by simp_all
qed

lemma positive_when_accepted: "num_ge x (Fin 0) \<Longrightarrow> \<not> num_le x (Fin 0) \<Longrightarrow> num_lt (Fin 0) x"
  by (cases x) (simp_all add: num_ge_def)

lemma num_le_trans: "num_le a b \<Longrightarrow> num_le b c \<Longrightarrow> num_le a c"
  by (cases a; cases b; cases c) simp_all

subsection \<open>Example stores and counts\<close>

lemma nearlyDone_edge:
  "\<not> allNeedsComplete (needs (state nearlyDoneStore))"
  "allNeedsComplete (clampNeeds ((needs (state nearlyDoneStore))(Sleep := Fin 100)))"
  by (simp_all add: nearlyDoneStore_def defaultState_def allNeedsComplete_def num_ge_def
      clampNeeds_apply clampNeed_def defaultNeeds_def)

lemma state_lateStore:
  "needs (state lateStore) = needs (state nearlyDoneStore)"
  "daysPlayed (state lateStore) = Fin 9007199254740992"
  "stored (state lateStore)"
  using stored_needs[OF stored_nearlyDone]
  by (simp_all add: lateStore_def initialState_Some commit_sel stored_commit)


lemma count_plus_one:
  assumes "isCount (Fin q)" "q < 9007199254740992"
  shows "num_add (Fin q) (Fin 1) = Fin (q + 1)"
proof -
  have "of_int \<lfloor>q\<rfloor> = q" "0 \<le> q" using assms(1) by simp_all
  then obtain n :: int where n: "q = of_int n" "0 \<le> n" by (metis of_int_0_le_iff)
  then have "n < 9007199254740992" using assms(2) by simp
  then have "n + 1 \<le> 9007199254740992" by simp
  then have "(of_int (n + 1) :: rat) \<le> of_int 9007199254740992" by (simp only: of_int_le_iff)
  then have "\<bar>q + 1\<bar> \<le> 9007199254740992" using n by simp
  moreover have "q \<in> \<int>" using n by simp
  ultimately show ?thesis by (intro num_add_int) simp_all
qed


subsection \<open>The total of the owned accessories\<close>

lemma countlike_cases:
  "countlike n \<Longrightarrow>
   beyondSafe n \<or> (\<exists>q. n = Fin q \<and> q \<in> \<int> \<and> 0 \<le> q \<and> q < 9007199254740992)"
proof (cases n)
  case (Fin q)
  assume "countlike n"
  then have "9007199254740992 \<le> q \<or> (0 \<le> q \<and> of_int \<lfloor>q\<rfloor> = q)"
    unfolding Fin countlike_def by auto
  then show ?thesis
  proof
    assume "9007199254740992 \<le> q"
    then show ?thesis by (simp add: Fin)
  next
    assume h: "0 \<le> q \<and> of_int \<lfloor>q\<rfloor> = q"
    then have "q \<in> \<int>" by (metis Ints_of_int)
    then show ?thesis using h by (cases "q < 9007199254740992") (simp_all add: Fin)
  qed
qed (simp_all add: countlike_def)

lemma countlike_nonneg: "countlike n \<Longrightarrow> num_ge n (Fin 0)"
  by (cases n) (auto simp add: countlike_def num_ge_def)

lemma beyond_countlike: "beyondSafe n \<Longrightarrow> countlike n"
  by (simp add: countlike_def)

lemma beyond_ge: "beyondSafe t \<Longrightarrow> k \<le> 9007199254740992 \<Longrightarrow> num_ge t (Fin k)"
  by (cases t) (simp_all add: num_ge_def)

lemma beyond_add:
  assumes "beyondSafe a" "num_ge b (Fin 0)"
  shows "beyondSafe (num_add a b)" and "beyondSafe (num_add b a)"
proof -
  have "beyondSafe (num_add a b) \<and> beyondSafe (num_add b a)"
  proof (cases a)
    case PosInf
    then show ?thesis using assms(2) by (cases b) (simp_all add: num_ge_def)
  next
    case (Fin x)
    then have x: "pow2 53 \<le> x" using assms(1) by (simp add: pow2_53)
    show ?thesis
    proof (cases b)
      case b: (Fin y)
      then have "0 \<le> y" using assms(2) by (simp add: num_ge_def)
      then have "pow2 53 \<le> x + y" "pow2 53 \<le> y + x" using x by simp_all
      from num_add_ge[OF this(1)] num_add_ge[OF this(2)] show ?thesis
        unfolding Fin b by (auto simp add: pow2_53)
    qed (use assms(2) Fin in \<open>simp_all add: num_ge_def\<close>)
  qed (use assms(1) in simp_all)
  then show "beyondSafe (num_add a b)" and "beyondSafe (num_add b a)" by simp_all
qed

lemma count_add:
  assumes "x \<in> \<int>" "y \<in> \<int>" "0 \<le> x" "0 \<le> y"
  shows "(x + y < 9007199254740992 \<longrightarrow> num_add (Fin x) (Fin y) = Fin (x + y)) \<and>
         (9007199254740992 \<le> x + y \<longrightarrow> beyondSafe (num_add (Fin x) (Fin y)))"
proof (intro conjI impI)
  assume "x + y < 9007199254740992"
  then have "\<bar>x + y\<bar> \<le> 9007199254740992" using assms(3,4) by simp
  then show "num_add (Fin x) (Fin y) = Fin (x + y)" by (rule num_add_int[OF assms(1,2)])
next
  assume "9007199254740992 \<le> x + y"
  then have "pow2 53 \<le> x + y" by (simp add: pow2_53)
  from num_add_ge[OF this] show "beyondSafe (num_add (Fin x) (Fin y))"
    by (auto simp add: pow2_53)
qed

lemma total_exact:
  assumes "x \<in> \<int>" "y \<in> \<int>" "z \<in> \<int>" "0 \<le> x" "0 \<le> y" "0 \<le> z"
    and "x + y + z < 9007199254740992"
  shows "num_add (num_add (Fin x) (Fin y)) (Fin z) = Fin (x + y + z)"
proof -
  have "x + y < 9007199254740992" using assms(6,7) by simp
  then have a: "num_add (Fin x) (Fin y) = Fin (x + y)"
    using count_add[OF assms(1,2,4,5)] by blast
  have "x + y \<in> \<int>" "0 \<le> x + y" using assms(1,2,4,5) by simp_all
  from count_add[OF this(1) assms(3) this(2) assms(6)] assms(7) show ?thesis
    unfolding a by blast
qed

lemma int_count: "x \<in> \<int> \<Longrightarrow> 0 \<le> x \<Longrightarrow> isCount (Fin x)"
  by (auto simp add: Ints_def)

lemma pair_cases:
  assumes "countlike a" "countlike b"
  shows "beyondSafe (num_add a b) \<or>
         (\<exists>x y. a = Fin x \<and> b = Fin y \<and> x \<in> \<int> \<and> y \<in> \<int> \<and> 0 \<le> x \<and> 0 \<le> y \<and>
            x + y < 9007199254740992 \<and> num_add a b = Fin (x + y))"
proof (cases "beyondSafe a \<or> beyondSafe b")
  case True
  then show ?thesis
  proof
    assume "beyondSafe a"
    from beyond_add(1)[OF this countlike_nonneg[OF assms(2)]] show ?thesis ..
  next
    assume "beyondSafe b"
    from beyond_add(2)[OF this countlike_nonneg[OF assms(1)]] show ?thesis ..
  qed
next
  case False
  then obtain x where x: "a = Fin x" "x \<in> \<int>" "0 \<le> x"
    using countlike_cases[OF assms(1)] by blast
  from False obtain y where y: "b = Fin y" "y \<in> \<int>" "0 \<le> y"
    using countlike_cases[OF assms(2)] by blast
  note ca = count_add[OF x(2) y(2) x(3) y(3)]
  show ?thesis
  proof (cases "x + y < 9007199254740992")
    case True
    then have "num_add a b = Fin (x + y)" using ca unfolding x(1) y(1) by blast
    then have "a = Fin x \<and> b = Fin y \<and> x \<in> \<int> \<and> y \<in> \<int> \<and> 0 \<le> x \<and> 0 \<le> y \<and>
            x + y < 9007199254740992 \<and> num_add a b = Fin (x + y)"
      using x y True by simp
    then show ?thesis by blast
  next
    case False
    then have "beyondSafe (num_add a b)" using ca unfolding x(1) y(1) by simp
    then show ?thesis ..
  qed
qed

lemma total_cases:
  assumes "countlike c" "countlike l" "countlike h"
  shows "beyondSafe (num_add (num_add c l) h) \<or>
         (\<exists>x y z. c = Fin x \<and> l = Fin y \<and> h = Fin z \<and> x \<in> \<int> \<and> y \<in> \<int> \<and> z \<in> \<int> \<and>
            0 \<le> x \<and> 0 \<le> y \<and> 0 \<le> z \<and> x + y + z < 9007199254740992 \<and>
            num_add (num_add c l) h = Fin (x + y + z))"
  using pair_cases[OF assms(1,2)]
proof (elim disjE exE conjE)
  assume "beyondSafe (num_add c l)"
  from beyond_add(1)[OF this countlike_nonneg[OF assms(3)]] show ?thesis ..
next
  fix x y
  assume p: "c = Fin x" "l = Fin y" "x \<in> \<int>" "y \<in> \<int>" "0 \<le> x" "0 \<le> y"
    "num_add c l = Fin (x + y)"
  have "isCount (Fin (x + y))" using p(3-6) by (intro int_count) simp_all
  then have "countlike (num_add c l)" unfolding p(7) countlike_def ..
  from pair_cases[OF this assms(3)] show ?thesis
  proof (elim disjE exE conjE)
    assume "beyondSafe (num_add (num_add c l) h)"
    then show ?thesis ..
  next
    fix w z
    assume q: "num_add c l = Fin w" "h = Fin z" "z \<in> \<int>" "0 \<le> z" "w + z < 9007199254740992"
      "num_add (num_add c l) h = Fin (w + z)"
    have w: "w = x + y" using q(1) p(7) by simp
    have "c = Fin x \<and> l = Fin y \<and> h = Fin z \<and> x \<in> \<int> \<and> y \<in> \<int> \<and> z \<in> \<int> \<and>
            0 \<le> x \<and> 0 \<le> y \<and> 0 \<le> z \<and> x + y + z < 9007199254740992 \<and>
            num_add (num_add c l) h = Fin (x + y + z)"
      using p q unfolding w by simp
    then show ?thesis by blast
  qed
qed

lemma upd_cases:
  assumes "countlike x"
    and "\<not> num_le (Math_max (Fin 0) (Math_floor (or0 c))) (Fin 0)"
  shows "beyondSafe (Math_max (Fin 0) (num_add x (Math_max (Fin 0) (Math_floor (or0 c))))) \<or>
         (\<exists>q n. x = Fin q \<and> q \<in> \<int> \<and> 0 \<le> q \<and> n \<in> \<int> \<and> 1 \<le> n \<and> q + n < 9007199254740992 \<and>
            Math_max (Fin 0) (num_add x (Math_max (Fin 0) (Math_floor (or0 c)))) = Fin (q + n))"
proof -
  let ?add = "Math_max (Fin 0) (Math_floor (or0 c))"
  have keep: "beyondSafe t \<Longrightarrow> beyondSafe (Math_max (Fin 0) t)" for t
    by (cases t) (auto)
  from add_shape[OF assms(2)] show ?thesis
  proof
    assume inf: "?add = PosInf"
    have "beyondSafe (num_add x PosInf)"
      using beyond_add(2)[of PosInf x] countlike_nonneg[OF assms(1)] by simp
    then show ?thesis unfolding inf using keep by blast
  next
    assume "\<exists>n::int. 1 \<le> n \<and> ?add = Fin (of_int n)"
    then obtain n :: int where n: "1 \<le> n" "?add = Fin (of_int n)" by blast
    have nn: "num_ge (Fin (of_int n)) (Fin 0)" using n(1) by (simp add: num_ge_def)
    from countlike_cases[OF assms(1)] show ?thesis
    proof (elim disjE exE conjE)
      assume "beyondSafe x"
      from beyond_add(1)[OF this nn] show ?thesis unfolding n(2) using keep by blast
    next
      fix q assume q: "x = Fin q" "q \<in> \<int>" "0 \<le> q" "q < 9007199254740992"
      have i: "(of_int n :: rat) \<in> \<int>" "(0::rat) \<le> of_int n" "(1::rat) \<le> of_int n"
        using n(1) by simp_all
      note ca = count_add[OF q(2) i(1) q(3) i(2)]
      show ?thesis
      proof (cases "q + of_int n < 9007199254740992")
        case True
        then have "num_add (Fin q) (Fin (of_int n)) = Fin (q + of_int n)" using ca by blast
        moreover have "0 \<le> q + of_int n" using q(3) i(2) by simp
        ultimately have "Math_max (Fin 0) (num_add (Fin q) (Fin (of_int n))) = Fin (q + of_int n)"
          by simp
        then show ?thesis
          unfolding n(2) q(1) using q(2,3) i(1,3) True by blast
      next
        case False
        then have "beyondSafe (num_add (Fin q) (Fin (of_int n)))" using ca by simp
        then show ?thesis unfolding n(2) q(1) using keep by blast
      qed
    qed
  qed
qed

lemma countlike_upd:
  assumes "countlike x"
    and "\<not> num_le (Math_max (Fin 0) (Math_floor (or0 c))) (Fin 0)"
  shows "countlike (Math_max (Fin 0) (num_add x (Math_max (Fin 0) (Math_floor (or0 c)))))"
  using upd_cases[OF assms]
proof (elim disjE exE conjE)
  fix q n :: rat
  assume h: "q \<in> \<int>" "0 \<le> q" "n \<in> \<int>" "1 \<le> n"
    "Math_max (Fin 0) (num_add x (Math_max (Fin 0) (Math_floor (or0 c)))) = Fin (q + n)"
  then have "q + n \<in> \<int>" "0 \<le> q + n" by simp_all
  then have "isCount (Fin (q + n))" by (rule int_count)
  then show ?thesis unfolding h(5) by (simp add: countlike_def)
qed (rule beyond_countlike)

lemma total_mono_collar:
  assumes cl: "countlike c" "countlike l" "countlike h"
    and acc: "\<not> num_le (Math_max (Fin 0) (Math_floor (or0 a))) (Fin 0)"
    and k: "k \<le> 9007199254740992"
    and ge: "num_ge (num_add (num_add c l) h) (Fin k)"
    and c': "c' = Math_max (Fin 0) (num_add c (Math_max (Fin 0) (Math_floor (or0 a))))"
  shows "num_ge (num_add (num_add c' l) h) (Fin k)"
proof -
  have cl': "countlike c'" unfolding c' using cl acc by (intro countlike_upd)
  have tc: "beyondSafe (num_add (num_add c' l) h) \<or>
         (\<exists>x y z. c' = Fin x \<and> l = Fin y \<and> h = Fin z \<and> x \<in> \<int> \<and> y \<in> \<int> \<and> z \<in> \<int> \<and>
            0 \<le> x \<and> 0 \<le> y \<and> 0 \<le> z \<and> x + y + z < 9007199254740992 \<and>
            num_add (num_add c' l) h = Fin (x + y + z))"
    using cl cl' by (intro total_cases)
  then show ?thesis
  proof (elim disjE exE conjE)
    assume "beyondSafe (num_add (num_add c' l) h)"
    then show ?thesis using k by (rule beyond_ge)
  next
    fix x y z :: rat
    assume n: "c' = Fin x" "l = Fin y" "h = Fin z" "x \<in> \<int>" "y \<in> \<int>" "z \<in> \<int>"
      "0 \<le> x" "0 \<le> y" "0 \<le> z" "x + y + z < 9007199254740992"
      "num_add (num_add c' l) h = Fin (x + y + z)"
    have "beyondSafe c' \<or>
         (\<exists>q n. c = Fin q \<and> q \<in> \<int> \<and> 0 \<le> q \<and> n \<in> \<int> \<and> 1 \<le> n \<and> q + n < 9007199254740992 \<and>
            c' = Fin (q + n))"
      unfolding c' using cl acc by (intro upd_cases)
    then show ?thesis
    proof (elim disjE exE conjE)
      assume "beyondSafe c'"
      then have "9007199254740992 \<le> x" using n by simp
      then show ?thesis using n by simp
    next
      fix q m :: rat
      assume u: "c = Fin q" "q \<in> \<int>" "0 \<le> q" "m \<in> \<int>" "1 \<le> m" "c' = Fin (q + m)"
      then have e: "x = q + m" using n by simp
      have "q + y + z < 9007199254740992" using n(10) u(5) e by simp
      then have "num_add (num_add c l) h = Fin (q + y + z)"
        using total_exact[of q y z] n u by simp
      then have "k \<le> q + y + z" using ge by (simp add: num_ge_def)
      then have "k \<le> x + y + z" using e u(5) by simp
      then show ?thesis by (simp add: n(11) num_ge_def)
    qed
  qed
qed

lemma total_mono_leash:
  assumes cl: "countlike c" "countlike l" "countlike h"
    and acc: "\<not> num_le (Math_max (Fin 0) (Math_floor (or0 a))) (Fin 0)"
    and k: "k \<le> 9007199254740992"
    and ge: "num_ge (num_add (num_add c l) h) (Fin k)"
    and c': "c' = Math_max (Fin 0) (num_add l (Math_max (Fin 0) (Math_floor (or0 a))))"
  shows "num_ge (num_add (num_add c c') h) (Fin k)"
proof -
  have cl': "countlike c'" unfolding c' using cl acc by (intro countlike_upd)
  have tc: "beyondSafe (num_add (num_add c c') h) \<or>
         (\<exists>x y z. c = Fin x \<and> c' = Fin y \<and> h = Fin z \<and> x \<in> \<int> \<and> y \<in> \<int> \<and> z \<in> \<int> \<and>
            0 \<le> x \<and> 0 \<le> y \<and> 0 \<le> z \<and> x + y + z < 9007199254740992 \<and>
            num_add (num_add c c') h = Fin (x + y + z))"
    using cl cl' by (intro total_cases)
  then show ?thesis
  proof (elim disjE exE conjE)
    assume "beyondSafe (num_add (num_add c c') h)"
    then show ?thesis using k by (rule beyond_ge)
  next
    fix x y z :: rat
    assume n: "c = Fin x" "c' = Fin y" "h = Fin z" "x \<in> \<int>" "y \<in> \<int>" "z \<in> \<int>"
      "0 \<le> x" "0 \<le> y" "0 \<le> z" "x + y + z < 9007199254740992"
      "num_add (num_add c c') h = Fin (x + y + z)"
    have "beyondSafe c' \<or>
         (\<exists>q n. l = Fin q \<and> q \<in> \<int> \<and> 0 \<le> q \<and> n \<in> \<int> \<and> 1 \<le> n \<and> q + n < 9007199254740992 \<and>
            c' = Fin (q + n))"
      unfolding c' using cl acc by (intro upd_cases)
    then show ?thesis
    proof (elim disjE exE conjE)
      assume "beyondSafe c'"
      then have "9007199254740992 \<le> y" using n by simp
      then show ?thesis using n by simp
    next
      fix q m :: rat
      assume u: "l = Fin q" "q \<in> \<int>" "0 \<le> q" "m \<in> \<int>" "1 \<le> m" "c' = Fin (q + m)"
      then have e: "y = q + m" using n by simp
      have "x + q + z < 9007199254740992" using n(10) u(5) e by simp
      then have "num_add (num_add c l) h = Fin (x + q + z)"
        using total_exact[of x q z] n u by simp
      then have "k \<le> x + q + z" using ge by (simp add: num_ge_def)
      then have "k \<le> x + y + z" using e u(5) by simp
      then show ?thesis by (simp add: n(11) num_ge_def)
    qed
  qed
qed

lemma total_mono_headband:
  assumes cl: "countlike c" "countlike l" "countlike h"
    and acc: "\<not> num_le (Math_max (Fin 0) (Math_floor (or0 a))) (Fin 0)"
    and k: "k \<le> 9007199254740992"
    and ge: "num_ge (num_add (num_add c l) h) (Fin k)"
    and c': "c' = Math_max (Fin 0) (num_add h (Math_max (Fin 0) (Math_floor (or0 a))))"
  shows "num_ge (num_add (num_add c l) c') (Fin k)"
proof -
  have cl': "countlike c'" unfolding c' using cl acc by (intro countlike_upd)
  have tc: "beyondSafe (num_add (num_add c l) c') \<or>
         (\<exists>x y z. c = Fin x \<and> l = Fin y \<and> c' = Fin z \<and> x \<in> \<int> \<and> y \<in> \<int> \<and> z \<in> \<int> \<and>
            0 \<le> x \<and> 0 \<le> y \<and> 0 \<le> z \<and> x + y + z < 9007199254740992 \<and>
            num_add (num_add c l) c' = Fin (x + y + z))"
    using cl cl' by (intro total_cases)
  then show ?thesis
  proof (elim disjE exE conjE)
    assume "beyondSafe (num_add (num_add c l) c')"
    then show ?thesis using k by (rule beyond_ge)
  next
    fix x y z :: rat
    assume n: "c = Fin x" "l = Fin y" "c' = Fin z" "x \<in> \<int>" "y \<in> \<int>" "z \<in> \<int>"
      "0 \<le> x" "0 \<le> y" "0 \<le> z" "x + y + z < 9007199254740992"
      "num_add (num_add c l) c' = Fin (x + y + z)"
    have "beyondSafe c' \<or>
         (\<exists>q n. h = Fin q \<and> q \<in> \<int> \<and> 0 \<le> q \<and> n \<in> \<int> \<and> 1 \<le> n \<and> q + n < 9007199254740992 \<and>
            c' = Fin (q + n))"
      unfolding c' using cl acc by (intro upd_cases)
    then show ?thesis
    proof (elim disjE exE conjE)
      assume "beyondSafe c'"
      then have "9007199254740992 \<le> z" using n by simp
      then show ?thesis using n by simp
    next
      fix q m :: rat
      assume u: "h = Fin q" "q \<in> \<int>" "0 \<le> q" "m \<in> \<int>" "1 \<le> m" "c' = Fin (q + m)"
      then have e: "z = q + m" using n by simp
      have "x + y + q < 9007199254740992" using n(10) u(5) e by simp
      then have "num_add (num_add c l) h = Fin (x + y + q)"
        using total_exact[of x y q] n u by simp
      then have "k \<le> x + y + q" using ge by (simp add: num_ge_def)
      then have "k \<le> x + y + z" using e u(5) by simp
      then show ?thesis by (simp add: n(11) num_ge_def)
    qed
  qed
qed

lemma accessoryCounts_update:
  assumes "accessoryCounts oa"
    and "\<not> num_le (Math_max (Fin 0) (Math_floor (or0 c))) (Fin 0)"
  shows "accessoryCounts (oa(a := Math_max (Fin 0) (num_add (oa a) (Math_max (Fin 0) (Math_floor (or0 c))))))"
  using assms countlike_upd[of "oa a" c] by (cases a) (simp_all add: accessoryCounts_def)

lemma total_update_mono:
  assumes "accessoryCounts oa"
    and "\<not> num_le (Math_max (Fin 0) (Math_floor (or0 c))) (Fin 0)"
    and "k \<le> 9007199254740992"
    and "num_ge (totalAccessoriesOwned oa) (Fin k)"
  shows "num_ge (totalAccessoriesOwned
           (oa(a := Math_max (Fin 0) (num_add (oa a) (Math_max (Fin 0) (Math_floor (or0 c))))))) (Fin k)"
proof -
  note cl = assms(1)[unfolded accessoryCounts_def, THEN conjunct1]
    assms(1)[unfolded accessoryCounts_def, THEN conjunct2, THEN conjunct1]
    assms(1)[unfolded accessoryCounts_def, THEN conjunct2, THEN conjunct2]
  note ge = assms(4)[unfolded totalAccessoriesOwned_def]
  show ?thesis
  proof (cases a)
    case collar
    show ?thesis
      unfolding collar totalAccessoriesOwned_def
      using total_mono_collar[OF cl assms(2,3) ge refl] by simp
  next
    case leash
    show ?thesis
      unfolding leash totalAccessoriesOwned_def
      using total_mono_leash[OF cl assms(2,3) ge refl] by simp
  next
    case headband
    show ?thesis
      unfolding headband totalAccessoriesOwned_def
      using total_mono_headband[OF cl assms(2,3) ge refl] by simp
  qed
qed

lemma addOwnedAccessory_total_mono:
  assumes "accessoryCounts (ownedAccessories (state st))"
    and "k \<le> 9007199254740992"
    and "num_ge (totalAccessoriesOwned (ownedAccessories (state st))) (Fin k)"
  shows "accessoryCounts (ownedAccessories (state (addOwnedAccessory a c st)))"
    and "num_ge (totalAccessoriesOwned (ownedAccessories (state (addOwnedAccessory a c st)))) (Fin k)"
proof -
  let ?c = "case c of Some n \<Rightarrow> n | None \<Rightarrow> Fin 1"
  have "accessoryCounts (ownedAccessories (state (addOwnedAccessory a c st))) \<and>
        num_ge (totalAccessoriesOwned (ownedAccessories (state (addOwnedAccessory a c st)))) (Fin k)"
  proof (cases "num_le (Math_max (Fin 0) (Math_floor (or0 ?c))) (Fin 0)")
    case True
    then show ?thesis using assms by (simp add: addOwnedAccessory_owned)
  next
    case False
    show ?thesis
      using accessoryCounts_update[OF assms(1) False, of a]
        total_update_mono[OF assms(1) False assms(2,3), of a] False
      by (simp add: addOwnedAccessory_owned Let_def)
  qed
  then show "accessoryCounts (ownedAccessories (state (addOwnedAccessory a c st)))"
    and "num_ge (totalAccessoriesOwned (ownedAccessories (state (addOwnedAccessory a c st)))) (Fin k)"
    by simp_all
qed

lemma accessoryCounts_addOwned:
  assumes "accessoryCounts (ownedAccessories (state st))"
  shows "accessoryCounts (ownedAccessories (state (addOwnedAccessory a c st)))"
proof (cases "num_le (Math_max (Fin 0) (Math_floor (or0 (case c of Some n \<Rightarrow> n | None \<Rightarrow> Fin 1)))) (Fin 0)")
  case True
  then show ?thesis using assms by (simp add: addOwnedAccessory_owned)
next
  case False
  show ?thesis
    using accessoryCounts_update[OF assms False, of a] False
    by (simp add: addOwnedAccessory_owned Let_def)
qed

lemma run_addOwned_counts:
  "accessoryCounts (ownedAccessories (state st)) \<Longrightarrow>
   accessoryCounts (ownedAccessories (state (run (map (\<lambda>(a, c). AddOwnedAccessory a c) calls) st)))"
proof (induction calls arbitrary: st)
  case Nil
  then show ?case by simp
next
  case (Cons x calls)
  obtain a c where x: "x = (a, c)" by (cases x)
  show ?case
    unfolding x using Cons.IH[OF accessoryCounts_addOwned[OF Cons.prems, of a c]] by simp
qed

lemma run_addOwned_total_mono:
  assumes "accessoryCounts (ownedAccessories (state st))"
    and "k \<le> 9007199254740992"
    and "num_ge (totalAccessoriesOwned (ownedAccessories (state st))) (Fin k)"
  shows "num_ge (totalAccessoriesOwned (ownedAccessories
            (state (run (map (\<lambda>(a, c). AddOwnedAccessory a c) calls) st)))) (Fin k)"
  using assms(1,3)
proof (induction calls arbitrary: st)
  case Nil
  then show ?case by simp
next
  case (Cons x calls)
  obtain a c where x: "x = (a, c)" by (cases x)
  note s = addOwnedAccessory_total_mono[OF Cons.prems(1) assms(2) Cons.prems(2), of a c]
  show ?case
    unfolding x using Cons.IH[OF s] by simp
qed

section \<open>The day-advance trigger\<close>




section \<open>Clamping of a need by \<open>setNeed\<close>\<close>

text \<open>
  Claim C2, as the spec has it: after \<open>setNeed need v\<close> the stored value of that need is
  the clamped input, so an input above 100 is stored as 100. This fails when the update
  completes the five needs: on four needs at 100 and \<open>sleep\<close> at 99, \<open>setNeed Sleep 150\<close>
  leaves \<open>sleep\<close> at 0, because the day advance resets the needs.
\<close>

theorem setNeed_clamp_counterexample:
  "stored (state nearlyDoneStore) \<and>
   num_lt (Fin 100) (Fin 150) \<and>
   needs (state (store_of (setNeed Sleep (Fin 150) nearlyDoneStore))) Sleep = Fin 0 \<and>
   needs (state (store_of (setNeed Sleep (Fin 150) nearlyDoneStore))) Sleep \<noteq> Fin 100"
proof -
  have pre: "\<not> allNeedsComplete (needs (state nearlyDoneStore))"
    by (simp add: nearlyDoneStore_def defaultState_def allNeedsComplete_def num_ge_def)
  have post: "allNeedsComplete (clampNeeds ((needs (state nearlyDoneStore))(Sleep := Fin 150)))"
    by (simp add: nearlyDoneStore_def defaultState_def allNeedsComplete_def num_ge_def
        clampNeeds_apply clampNeed_def round_def)
  have ages: "\<not> ageBumpThrows nearlyDoneStore"
    by (simp add: ageBumpThrows_def nearlyDoneStore_def)
  show ?thesis
    using pre post ages stored_nearlyDone by (simp add: setNeed_needs defaultNeeds_def)
qed

text \<open>
  Claim C2, amended. For every store, need and number \<open>v\<close>: the value that \<open>setNeed\<close>
  commits for the need is \<open>clampNeed v\<close>, and it is still the stored value when the call
  returns unless the update completed the five needs, in which case the day advance has
  reset it to 0 (where the pet-ages entry makes the day advance throw, the clamped value
  stays). Either way the stored value is an integer between 0 and 100. \<open>clampNeed\<close>
  sends a non-finite input to 0, a finite input above 100 to 100, an input below 0 to 0
  and an input between 0 and 100 to the nearest integer.
\<close>

theorem setNeed_clamps:
  "needs (state (persist ((state st)\<lparr>needs := clampNeeds ((needs (state st))(need := v))\<rparr>) st)) need
     = clampNeed v \<and>
   needs (state (store_of (setNeed need v st))) need =
     (if \<not> allNeedsComplete (needs (state st)) \<and>
         allNeedsComplete (clampNeeds ((needs (state st))(need := v))) \<and>
         \<not> ageBumpThrows st
      then Fin 0 else clampNeed v) \<and>
   (\<exists>k. 0 \<le> k \<and> k \<le> 100 \<and> needs (state (store_of (setNeed need v st))) need = Fin (of_int k)) \<and>
   (\<not> isFinite v \<longrightarrow> clampNeed v = Fin 0) \<and>
   (isFinite v \<and> num_lt (Fin 100) v \<longrightarrow> clampNeed v = Fin 100) \<and>
   (num_lt v (Fin 0) \<longrightarrow> clampNeed v = Fin 0) \<and>
   (num_le (Fin 0) v \<and> num_le v (Fin 100) \<longrightarrow> clampNeed v = Math_round v)"
proof (intro conjI impI)
  show "needs (state (persist ((state st)\<lparr>needs := clampNeeds ((needs (state st))(need := v))\<rparr>) st)) need
     = clampNeed v"
    by (simp add: persist_sel commit_sel clampNeeds_idem clampNeeds_apply)
  show fin: "needs (state (store_of (setNeed need v st))) need =
     (if \<not> allNeedsComplete (needs (state st)) \<and>
         allNeedsComplete (clampNeeds ((needs (state st))(need := v))) \<and>
         \<not> ageBumpThrows st
      then Fin 0 else clampNeed v)"
    by (simp add: setNeed_needs defaultNeeds_def clampNeeds_apply)
  have "\<exists>k. 0 \<le> k \<and> k \<le> 100 \<and>
          (if \<not> allNeedsComplete (needs (state st)) \<and>
              allNeedsComplete (clampNeeds ((needs (state st))(need := v))) \<and>
              \<not> ageBumpThrows st
           then Fin 0 else clampNeed v) = Fin (of_int k)"
    using clampNeed_range[of v] by (auto intro: exI[of _ 0])
  then show "\<exists>k. 0 \<le> k \<and> k \<le> 100 \<and> needs (state (store_of (setNeed need v st))) need = Fin (of_int k)"
    by (simp only: fin)
  show "clampNeed v = Fin 0" if "\<not> isFinite v"
    using that by (rule clampNeed_nonfinite)
  show "clampNeed v = Fin 100" if "isFinite v \<and> num_lt (Fin 100) v"
  proof (cases v)
    case (Fin q)
    then show ?thesis using that round_above[of q] by (simp add: clampNeed_Fin)
  qed (use that in simp_all)
  show "clampNeed v = Fin 0" if "num_lt v (Fin 0)"
  proof (cases v)
    case (Fin q)
    then show ?thesis using that round_below[of q] by (simp add: clampNeed_Fin)
  qed (use that in \<open>simp_all add: clampNeed_def\<close>)
  show "clampNeed v = Math_round v" if "num_le (Fin 0) v \<and> num_le v (Fin 100)"
  proof (cases v)
    case (Fin q)
    then show ?thesis using that round_within[of q] by (simp add: clampNeed_Fin)
  qed (use that in simp_all)
qed

text \<open>
  The spec's examples on the fresh store: 9999 is stored as 100, \<open>-50\<close> as 0, \<open>NaN\<close> and
  \<open>Infinity\<close> as 0 and 7/2 as 4.
\<close>

theorem setNeed_clamps_witness:
  "needs (state (store_of (setNeed Hunger (Fin 9999) freshStore))) Hunger = Fin 100 \<and>
   needs (state (store_of (setNeed Hunger (Fin (- 50)) freshStore))) Hunger = Fin 0 \<and>
   needs (state (store_of (setNeed Hunger NaN freshStore))) Hunger = Fin 0 \<and>
   needs (state (store_of (setNeed Hunger PosInf freshStore))) Hunger = Fin 0 \<and>
   needs (state (store_of (setNeed Hunger (Fin (7 / 2)) freshStore))) Hunger = Fin 4"
proof -
  have nc: "\<not> allNeedsComplete (clampNeeds ((needs (state freshStore))(Hunger := v)))" for v
    by (simp add: state_freshStore defaultState_def not_complete_after_reset)
  have r: "round (7 / 2 :: rat) = 4"
    by (simp add: round_def)
  have "needs (state (store_of (setNeed Hunger (Fin 9999) freshStore))) Hunger = Fin 100"
    using setNeed_clamps[of freshStore Hunger "Fin 9999"] nc by simp
  moreover have "needs (state (store_of (setNeed Hunger (Fin (- 50)) freshStore))) Hunger = Fin 0"
    using setNeed_clamps[of freshStore Hunger "Fin (- 50)"] nc by simp
  moreover have "needs (state (store_of (setNeed Hunger NaN freshStore))) Hunger = Fin 0"
    using setNeed_clamps[of freshStore Hunger NaN] nc by simp
  moreover have "needs (state (store_of (setNeed Hunger PosInf freshStore))) Hunger = Fin 0"
    using setNeed_clamps[of freshStore Hunger PosInf] nc by simp
  moreover have "needs (state (store_of (setNeed Hunger (Fin (7 / 2)) freshStore))) Hunger = Fin 4"
    using setNeed_clamps[of freshStore Hunger "Fin (7 / 2)"] nc r by simp
  ultimately show ?thesis by simp
qed


section \<open>The normalizer is idempotent\<close>




section \<open>Badges are recomputed on every commit\<close>

lemma badges_commit: "badges (commit raw) = computeBadges (commit raw)"
  using stored_badges[OF stored_commit] .

lemma badges_thresholds:
  assumes "badges s = computeBadges s"
  shows "accessory_1 (badges s) = num_ge (totalAccessoriesOwned (ownedAccessories s)) (Fin 1) \<and>
         accessory_2 (badges s) = num_ge (totalAccessoriesOwned (ownedAccessories s)) (Fin 2) \<and>
         accessory_4 (badges s) = num_ge (totalAccessoriesOwned (ownedAccessories s)) (Fin 4) \<and>
         days_5 (badges s) = num_ge (daysPlayed s) (Fin 5) \<and>
         days_10 (badges s) = num_ge (daysPlayed s) (Fin 10) \<and>
         days_15 (badges s) = num_ge (daysPlayed s) (Fin 15) \<and>
         days_25 (badges s) = num_ge (daysPlayed s) (Fin 25) \<and>
         days_50 (badges s) = num_ge (daysPlayed s) (Fin 50) \<and>
         days_100 (badges s) = num_ge (daysPlayed s) (Fin 100)"
  unfolding assms by (simp add: computeBadges_def Let_def)

text \<open>
  Claim C4. A commit sets every badge to its threshold condition on the committed state,
  whatever the badges of the candidate were: the accessory badges compare the sum of the
  three owned counts, as \<^verbatim>\<open>totalAccessoriesOwned\<close> computes it, with 1, 2 and 4, the
  day badges compare \<open>daysPlayed\<close> with 5, 10, 15, 25, 50 and 100. When the counts are
  non-negative integers with a sum of at most 9007199254740992 the computed sum is their
  exact sum. Hence after any mutator call on a state of the store every badge equals its
  condition. Along any run of \<open>addOwnedAccessory\<close> calls, from the fresh store or from a
  state whose counts are non-negative integers (or have passed 9007199254740992), each
  accessory badge is true exactly in the states whose total has reached its threshold, and
  the total never goes back below a threshold it has reached, so a badge that is true
  stays true in every later state of the run.
\<close>

theorem badges_derived_on_commit:
  "badges (commit raw) = computeBadges (commit raw) \<and>
   commit (raw\<lparr>badges := anyBadges\<rparr>) = commit raw \<and>
   (\<forall>x y z. o_acc collar = Fin (of_nat x) \<and> o_acc leash = Fin (of_nat y) \<and>
            o_acc headband = Fin (of_nat z) \<and> x + y + z \<le> 9007199254740992 \<longrightarrow>
      totalAccessoriesOwned o_acc = Fin (of_nat (x + y + z))) \<and>
   (stored (state st) \<longrightarrow>
      accessory_1 (badges (state (store_of (apply_mutation m st)))) =
        num_ge (totalAccessoriesOwned (ownedAccessories (state (store_of (apply_mutation m st))))) (Fin 1) \<and>
      accessory_2 (badges (state (store_of (apply_mutation m st)))) =
        num_ge (totalAccessoriesOwned (ownedAccessories (state (store_of (apply_mutation m st))))) (Fin 2) \<and>
      accessory_4 (badges (state (store_of (apply_mutation m st)))) =
        num_ge (totalAccessoriesOwned (ownedAccessories (state (store_of (apply_mutation m st))))) (Fin 4) \<and>
      days_5 (badges (state (store_of (apply_mutation m st)))) =
        num_ge (daysPlayed (state (store_of (apply_mutation m st)))) (Fin 5) \<and>
      days_10 (badges (state (store_of (apply_mutation m st)))) =
        num_ge (daysPlayed (state (store_of (apply_mutation m st)))) (Fin 10) \<and>
      days_15 (badges (state (store_of (apply_mutation m st)))) =
        num_ge (daysPlayed (state (store_of (apply_mutation m st)))) (Fin 15) \<and>
      days_25 (badges (state (store_of (apply_mutation m st)))) =
        num_ge (daysPlayed (state (store_of (apply_mutation m st)))) (Fin 25) \<and>
      days_50 (badges (state (store_of (apply_mutation m st)))) =
        num_ge (daysPlayed (state (store_of (apply_mutation m st)))) (Fin 50) \<and>
      days_100 (badges (state (store_of (apply_mutation m st)))) =
        num_ge (daysPlayed (state (store_of (apply_mutation m st)))) (Fin 100)) \<and>
   (stored (state st) \<and> accessoryCounts (ownedAccessories (state st)) \<longrightarrow>
      accessory_1 (badges (state (run (map (\<lambda>(a, c). AddOwnedAccessory a c) calls) st))) =
        num_ge (totalAccessoriesOwned (ownedAccessories (state (run (map (\<lambda>(a, c). AddOwnedAccessory a c) calls) st)))) (Fin 1) \<and>
      accessory_2 (badges (state (run (map (\<lambda>(a, c). AddOwnedAccessory a c) calls) st))) =
        num_ge (totalAccessoriesOwned (ownedAccessories (state (run (map (\<lambda>(a, c). AddOwnedAccessory a c) calls) st)))) (Fin 2) \<and>
      accessory_4 (badges (state (run (map (\<lambda>(a, c). AddOwnedAccessory a c) calls) st))) =
        num_ge (totalAccessoriesOwned (ownedAccessories (state (run (map (\<lambda>(a, c). AddOwnedAccessory a c) calls) st)))) (Fin 4) \<and>
      (accessory_1 (badges (state (run (map (\<lambda>(a, c). AddOwnedAccessory a c) calls) st))) \<longrightarrow>
       accessory_1 (badges (state (run (map (\<lambda>(a, c). AddOwnedAccessory a c) (calls @ later)) st)))) \<and>
      (accessory_2 (badges (state (run (map (\<lambda>(a, c). AddOwnedAccessory a c) calls) st))) \<longrightarrow>
       accessory_2 (badges (state (run (map (\<lambda>(a, c). AddOwnedAccessory a c) (calls @ later)) st)))) \<and>
      (accessory_4 (badges (state (run (map (\<lambda>(a, c). AddOwnedAccessory a c) calls) st))) \<longrightarrow>
       accessory_4 (badges (state (run (map (\<lambda>(a, c). AddOwnedAccessory a c) (calls @ later)) st))))) \<and>
   accessory_1 (badges (state (run (map (\<lambda>(a, c). AddOwnedAccessory a c) calls) freshStore))) =
        num_ge (totalAccessoriesOwned (ownedAccessories (state (run (map (\<lambda>(a, c). AddOwnedAccessory a c) calls) freshStore)))) (Fin 1) \<and>
      accessory_2 (badges (state (run (map (\<lambda>(a, c). AddOwnedAccessory a c) calls) freshStore))) =
        num_ge (totalAccessoriesOwned (ownedAccessories (state (run (map (\<lambda>(a, c). AddOwnedAccessory a c) calls) freshStore)))) (Fin 2) \<and>
      accessory_4 (badges (state (run (map (\<lambda>(a, c). AddOwnedAccessory a c) calls) freshStore))) =
        num_ge (totalAccessoriesOwned (ownedAccessories (state (run (map (\<lambda>(a, c). AddOwnedAccessory a c) calls) freshStore)))) (Fin 4) \<and>
   (accessory_1 (badges (state (run (map (\<lambda>(a, c). AddOwnedAccessory a c) calls) freshStore))) \<longrightarrow>
       accessory_1 (badges (state (run (map (\<lambda>(a, c). AddOwnedAccessory a c) (calls @ later)) freshStore)))) \<and>
      (accessory_2 (badges (state (run (map (\<lambda>(a, c). AddOwnedAccessory a c) calls) freshStore))) \<longrightarrow>
       accessory_2 (badges (state (run (map (\<lambda>(a, c). AddOwnedAccessory a c) (calls @ later)) freshStore)))) \<and>
      (accessory_4 (badges (state (run (map (\<lambda>(a, c). AddOwnedAccessory a c) calls) freshStore))) \<longrightarrow>
       accessory_4 (badges (state (run (map (\<lambda>(a, c). AddOwnedAccessory a c) (calls @ later)) freshStore))))"
proof -
  have p1: "badges (commit raw) = computeBadges (commit raw)"
    by (rule badges_commit)
  have p2: "commit (raw\<lparr>badges := anyBadges\<rparr>) = commit raw"
    by (simp add: commit_def Let_def normalize_def computeBadges_def)
  have p3: "(\<forall>x y z. o_acc collar = Fin (of_nat x) \<and> o_acc leash = Fin (of_nat y) \<and>
            o_acc headband = Fin (of_nat z) \<and> x + y + z \<le> 9007199254740992 \<longrightarrow>
      totalAccessoriesOwned o_acc = Fin (of_nat (x + y + z)))"
  proof (intro allI impI)
    fix x y z :: nat
    assume h: "o_acc collar = Fin (of_nat x) \<and> o_acc leash = Fin (of_nat y) \<and>
            o_acc headband = Fin (of_nat z) \<and> x + y + z \<le> 9007199254740992"
    then have "(of_nat (x + y + z) :: rat) \<le> of_nat 9007199254740992"
      by (simp only: of_nat_le_iff)
    then have b: "(of_nat x + of_nat y + of_nat z :: rat) \<le> 9007199254740992"
      by simp
    then have "\<bar>of_nat x + of_nat y :: rat\<bar> \<le> 9007199254740992" by simp
    then have s1: "num_add (Fin (of_nat x)) (Fin (of_nat y)) = Fin (of_nat x + of_nat y)"
      by (intro num_add_int) simp_all
    have "\<bar>(of_nat x + of_nat y) + of_nat z :: rat\<bar> \<le> 9007199254740992" using b by simp
    then have s2: "num_add (Fin (of_nat x + of_nat y)) (Fin (of_nat z)) =
                   Fin ((of_nat x + of_nat y) + of_nat z)"
      by (intro num_add_int) simp_all
    show "totalAccessoriesOwned o_acc = Fin (of_nat (x + y + z))"
      unfolding totalAccessoriesOwned_def using h by (simp add: s1 s2 del: num_add.simps)
  qed
  have p4: "(stored (state st) \<longrightarrow>
      accessory_1 (badges (state (store_of (apply_mutation m st)))) =
        num_ge (totalAccessoriesOwned (ownedAccessories (state (store_of (apply_mutation m st))))) (Fin 1) \<and>
      accessory_2 (badges (state (store_of (apply_mutation m st)))) =
        num_ge (totalAccessoriesOwned (ownedAccessories (state (store_of (apply_mutation m st))))) (Fin 2) \<and>
      accessory_4 (badges (state (store_of (apply_mutation m st)))) =
        num_ge (totalAccessoriesOwned (ownedAccessories (state (store_of (apply_mutation m st))))) (Fin 4) \<and>
      days_5 (badges (state (store_of (apply_mutation m st)))) =
        num_ge (daysPlayed (state (store_of (apply_mutation m st)))) (Fin 5) \<and>
      days_10 (badges (state (store_of (apply_mutation m st)))) =
        num_ge (daysPlayed (state (store_of (apply_mutation m st)))) (Fin 10) \<and>
      days_15 (badges (state (store_of (apply_mutation m st)))) =
        num_ge (daysPlayed (state (store_of (apply_mutation m st)))) (Fin 15) \<and>
      days_25 (badges (state (store_of (apply_mutation m st)))) =
        num_ge (daysPlayed (state (store_of (apply_mutation m st)))) (Fin 25) \<and>
      days_50 (badges (state (store_of (apply_mutation m st)))) =
        num_ge (daysPlayed (state (store_of (apply_mutation m st)))) (Fin 50) \<and>
      days_100 (badges (state (store_of (apply_mutation m st)))) =
        num_ge (daysPlayed (state (store_of (apply_mutation m st)))) (Fin 100))"
  proof
    assume "stored (state st)"
    then have "stored (state (store_of (apply_mutation m st)))"
      by (rule stored_apply_mutation)
    from badges_thresholds[OF stored_badges[OF this]]
    show "accessory_1 (badges (state (store_of (apply_mutation m st)))) =
        num_ge (totalAccessoriesOwned (ownedAccessories (state (store_of (apply_mutation m st))))) (Fin 1) \<and>
      accessory_2 (badges (state (store_of (apply_mutation m st)))) =
        num_ge (totalAccessoriesOwned (ownedAccessories (state (store_of (apply_mutation m st))))) (Fin 2) \<and>
      accessory_4 (badges (state (store_of (apply_mutation m st)))) =
        num_ge (totalAccessoriesOwned (ownedAccessories (state (store_of (apply_mutation m st))))) (Fin 4) \<and>
      days_5 (badges (state (store_of (apply_mutation m st)))) =
        num_ge (daysPlayed (state (store_of (apply_mutation m st)))) (Fin 5) \<and>
      days_10 (badges (state (store_of (apply_mutation m st)))) =
        num_ge (daysPlayed (state (store_of (apply_mutation m st)))) (Fin 10) \<and>
      days_15 (badges (state (store_of (apply_mutation m st)))) =
        num_ge (daysPlayed (state (store_of (apply_mutation m st)))) (Fin 15) \<and>
      days_25 (badges (state (store_of (apply_mutation m st)))) =
        num_ge (daysPlayed (state (store_of (apply_mutation m st)))) (Fin 25) \<and>
      days_50 (badges (state (store_of (apply_mutation m st)))) =
        num_ge (daysPlayed (state (store_of (apply_mutation m st)))) (Fin 50) \<and>
      days_100 (badges (state (store_of (apply_mutation m st)))) =
        num_ge (daysPlayed (state (store_of (apply_mutation m st)))) (Fin 100)"
      by simp
  qed
  have run_part: "accessory_1 (badges (state (run (map (\<lambda>(a, c). AddOwnedAccessory a c) calls) st))) =
        num_ge (totalAccessoriesOwned (ownedAccessories (state (run (map (\<lambda>(a, c). AddOwnedAccessory a c) calls) st)))) (Fin 1) \<and>
      accessory_2 (badges (state (run (map (\<lambda>(a, c). AddOwnedAccessory a c) calls) st))) =
        num_ge (totalAccessoriesOwned (ownedAccessories (state (run (map (\<lambda>(a, c). AddOwnedAccessory a c) calls) st)))) (Fin 2) \<and>
      accessory_4 (badges (state (run (map (\<lambda>(a, c). AddOwnedAccessory a c) calls) st))) =
        num_ge (totalAccessoriesOwned (ownedAccessories (state (run (map (\<lambda>(a, c). AddOwnedAccessory a c) calls) st)))) (Fin 4) \<and>
      (accessory_1 (badges (state (run (map (\<lambda>(a, c). AddOwnedAccessory a c) calls) st))) \<longrightarrow>
       accessory_1 (badges (state (run (map (\<lambda>(a, c). AddOwnedAccessory a c) (calls @ later)) st)))) \<and>
      (accessory_2 (badges (state (run (map (\<lambda>(a, c). AddOwnedAccessory a c) calls) st))) \<longrightarrow>
       accessory_2 (badges (state (run (map (\<lambda>(a, c). AddOwnedAccessory a c) (calls @ later)) st)))) \<and>
      (accessory_4 (badges (state (run (map (\<lambda>(a, c). AddOwnedAccessory a c) calls) st))) \<longrightarrow>
       accessory_4 (badges (state (run (map (\<lambda>(a, c). AddOwnedAccessory a c) (calls @ later)) st))))"
    if held: "stored (state st)" and cnt: "accessoryCounts (ownedAccessories (state st))"
    for st
  proof -
    define s1 where "s1 = state (run (map (\<lambda>(a, c). AddOwnedAccessory a c) calls) st)"
    define s2 where "s2 = state (run (map (\<lambda>(a, c). AddOwnedAccessory a c) (calls @ later)) st)"
    have s2: "s2 = state (run (map (\<lambda>(a, c). AddOwnedAccessory a c) later)
                (run (map (\<lambda>(a, c). AddOwnedAccessory a c) calls) st))"
      by (simp add: s2_def run_append)
    have h1: "stored s1"
      unfolding s1_def using held by (rule stored_run)
    have h2: "stored s2"
      unfolding s2_def using held by (rule stored_run)
    have c1: "accessoryCounts (ownedAccessories s1)"
      unfolding s1_def using cnt by (rule run_addOwned_counts)
    note t1 = badges_thresholds[OF stored_badges[OF h1]]
    note t2 = badges_thresholds[OF stored_badges[OF h2]]
    have mono: "k \<le> 9007199254740992 \<Longrightarrow>
        num_ge (totalAccessoriesOwned (ownedAccessories s1)) (Fin k) \<Longrightarrow>
        num_ge (totalAccessoriesOwned (ownedAccessories s2)) (Fin k)" for k
      unfolding s2 using c1 unfolding s1_def by (rule run_addOwned_total_mono)
    have "accessory_1 (badges s1) = num_ge (totalAccessoriesOwned (ownedAccessories s1)) (Fin 1) \<and>
      accessory_2 (badges s1) = num_ge (totalAccessoriesOwned (ownedAccessories s1)) (Fin 2) \<and>
      accessory_4 (badges s1) = num_ge (totalAccessoriesOwned (ownedAccessories s1)) (Fin 4) \<and>
      (accessory_1 (badges s1) \<longrightarrow> accessory_1 (badges s2)) \<and>
      (accessory_2 (badges s1) \<longrightarrow> accessory_2 (badges s2)) \<and>
      (accessory_4 (badges s1) \<longrightarrow> accessory_4 (badges s2))"
      using mono[of 1] mono[of 2] mono[of 4] by (simp add: t1 t2)
    then show ?thesis
      unfolding s1_def s2_def .
  qed
  have p5: "(stored (state st) \<and> accessoryCounts (ownedAccessories (state st)) \<longrightarrow>
      accessory_1 (badges (state (run (map (\<lambda>(a, c). AddOwnedAccessory a c) calls) st))) =
        num_ge (totalAccessoriesOwned (ownedAccessories (state (run (map (\<lambda>(a, c). AddOwnedAccessory a c) calls) st)))) (Fin 1) \<and>
      accessory_2 (badges (state (run (map (\<lambda>(a, c). AddOwnedAccessory a c) calls) st))) =
        num_ge (totalAccessoriesOwned (ownedAccessories (state (run (map (\<lambda>(a, c). AddOwnedAccessory a c) calls) st)))) (Fin 2) \<and>
      accessory_4 (badges (state (run (map (\<lambda>(a, c). AddOwnedAccessory a c) calls) st))) =
        num_ge (totalAccessoriesOwned (ownedAccessories (state (run (map (\<lambda>(a, c). AddOwnedAccessory a c) calls) st)))) (Fin 4) \<and>
      (accessory_1 (badges (state (run (map (\<lambda>(a, c). AddOwnedAccessory a c) calls) st))) \<longrightarrow>
       accessory_1 (badges (state (run (map (\<lambda>(a, c). AddOwnedAccessory a c) (calls @ later)) st)))) \<and>
      (accessory_2 (badges (state (run (map (\<lambda>(a, c). AddOwnedAccessory a c) calls) st))) \<longrightarrow>
       accessory_2 (badges (state (run (map (\<lambda>(a, c). AddOwnedAccessory a c) (calls @ later)) st)))) \<and>
      (accessory_4 (badges (state (run (map (\<lambda>(a, c). AddOwnedAccessory a c) calls) st))) \<longrightarrow>
       accessory_4 (badges (state (run (map (\<lambda>(a, c). AddOwnedAccessory a c) (calls @ later)) st)))))"
    using run_part[of st] by blast
  have fresh: "stored (state freshStore)" "accessoryCounts (ownedAccessories (state freshStore))"
    by (simp add: state_freshStore stored_defaultState)
       (simp add: state_freshStore defaultState_def accessoryCounts_def countlike_def)
  have p6: "accessory_1 (badges (state (run (map (\<lambda>(a, c). AddOwnedAccessory a c) calls) freshStore))) =
        num_ge (totalAccessoriesOwned (ownedAccessories (state (run (map (\<lambda>(a, c). AddOwnedAccessory a c) calls) freshStore)))) (Fin 1) \<and>
      accessory_2 (badges (state (run (map (\<lambda>(a, c). AddOwnedAccessory a c) calls) freshStore))) =
        num_ge (totalAccessoriesOwned (ownedAccessories (state (run (map (\<lambda>(a, c). AddOwnedAccessory a c) calls) freshStore)))) (Fin 2) \<and>
      accessory_4 (badges (state (run (map (\<lambda>(a, c). AddOwnedAccessory a c) calls) freshStore))) =
        num_ge (totalAccessoriesOwned (ownedAccessories (state (run (map (\<lambda>(a, c). AddOwnedAccessory a c) calls) freshStore)))) (Fin 4) \<and>
   (accessory_1 (badges (state (run (map (\<lambda>(a, c). AddOwnedAccessory a c) calls) freshStore))) \<longrightarrow>
       accessory_1 (badges (state (run (map (\<lambda>(a, c). AddOwnedAccessory a c) (calls @ later)) freshStore)))) \<and>
      (accessory_2 (badges (state (run (map (\<lambda>(a, c). AddOwnedAccessory a c) calls) freshStore))) \<longrightarrow>
       accessory_2 (badges (state (run (map (\<lambda>(a, c). AddOwnedAccessory a c) (calls @ later)) freshStore)))) \<and>
      (accessory_4 (badges (state (run (map (\<lambda>(a, c). AddOwnedAccessory a c) calls) freshStore))) \<longrightarrow>
       accessory_4 (badges (state (run (map (\<lambda>(a, c). AddOwnedAccessory a c) (calls @ later)) freshStore))))"
    using run_part[OF fresh] .
  show ?thesis
    by (rule conjI[OF p1 conjI[OF p2 conjI[OF p3 conjI[OF p4 conjI[OF p5 p6]]]]])
qed

text \<open>
  The spec's run on the fresh store: the totals go 0, 1, 2, 4; \<open>accessory_1\<close> is false at
  0 and true from 1 on, \<open>accessory_2\<close> is false at 1 and true from 2 on, \<open>accessory_4\<close>
  is false at 2 and true at 4.
\<close>

theorem badges_derived_on_commit_witness:
  "stored (state freshStore) \<and>
   accessoryCounts (ownedAccessories (state freshStore)) \<and>
   totalAccessoriesOwned ((\<lambda>a. Fin 0)(collar := Fin (of_nat 1), leash := Fin (of_nat 1),
      headband := Fin (of_nat 2))) = Fin (of_nat 4) \<and>
   \<not> accessory_1 (badges (state (run (map (\<lambda>(a, c). AddOwnedAccessory a c) []) freshStore))) \<and>
   accessory_1 (badges (state (run (map (\<lambda>(a, c). AddOwnedAccessory a c)
      [(collar, None)]) freshStore))) \<and>
   \<not> accessory_2 (badges (state (run (map (\<lambda>(a, c). AddOwnedAccessory a c)
      [(collar, None)]) freshStore))) \<and>
   accessory_2 (badges (state (run (map (\<lambda>(a, c). AddOwnedAccessory a c)
      [(collar, None), (leash, Some (Fin 1))]) freshStore))) \<and>
   \<not> accessory_4 (badges (state (run (map (\<lambda>(a, c). AddOwnedAccessory a c)
      [(collar, None), (leash, Some (Fin 1))]) freshStore))) \<and>
   accessory_4 (badges (state (run (map (\<lambda>(a, c). AddOwnedAccessory a c)
      ([(collar, None), (leash, Some (Fin 1))] @ [(headband, Some (Fin 2))])) freshStore))) \<and>
   accessory_2 (badges (state (run (map (\<lambda>(a, c). AddOwnedAccessory a c)
      ([(collar, None), (leash, Some (Fin 1))] @ [(headband, Some (Fin 2))])) freshStore))) \<and>
   days_5 (badges (state (store_of (apply_mutation (SetSelectedPet dog) freshStore)))) =
     num_ge (daysPlayed (state (store_of (apply_mutation (SetSelectedPet dog) freshStore)))) (Fin 5)"
proof -
  have held: "stored (state freshStore)"
    by (simp add: state_freshStore stored_defaultState)
  have cnt: "accessoryCounts (ownedAccessories (state freshStore))"
    by (simp add: state_freshStore defaultState_def accessoryCounts_def countlike_def)
  note ev = addOwnedAccessory_owned Let_def state_freshStore defaultState_def
    totalAccessoriesOwned_def num_ge_def toDouble_int
  have t0: "\<not> num_ge (totalAccessoriesOwned (ownedAccessories (state freshStore))) (Fin 1)"
    by (simp add: ev)
  have t1: "num_ge (totalAccessoriesOwned (ownedAccessories
        (state (addOwnedAccessory collar None freshStore)))) (Fin 1)"
    "\<not> num_ge (totalAccessoriesOwned (ownedAccessories
        (state (addOwnedAccessory collar None freshStore)))) (Fin 2)"
    by (simp_all add: ev)
  have t2: "num_ge (totalAccessoriesOwned (ownedAccessories
        (state (addOwnedAccessory leash (Some (Fin 1)) (addOwnedAccessory collar None freshStore)))))
        (Fin 2)"
    "\<not> num_ge (totalAccessoriesOwned (ownedAccessories
        (state (addOwnedAccessory leash (Some (Fin 1)) (addOwnedAccessory collar None freshStore)))))
        (Fin 4)"
    by (simp_all add: ev)
  have t4: "num_ge (totalAccessoriesOwned (ownedAccessories
        (state (addOwnedAccessory headband (Some (Fin 2))
           (addOwnedAccessory leash (Some (Fin 1)) (addOwnedAccessory collar None freshStore))))))
        (Fin 4)"
    by (simp add: ev)
  note w = badges_derived_on_commit[where st = freshStore and m = "SetSelectedPet dog"
      and raw = defaultState and anyBadges = defaultBadges
      and o_acc = "(\<lambda>a. Fin 0)(collar := Fin (of_nat 1), leash := Fin (of_nat 1),
      headband := Fin (of_nat 2))"]
  note w0 = w[where calls = "[]" and later = "[]"]
  note w1 = w[where calls = "[(collar, None)]" and later = "[]"]
  note w2 = w[where calls = "[(collar, None), (leash, Some (Fin 1))]"
      and later = "[(headband, Some (Fin 2))]"]
  note w3 = w[where calls = "[(collar, None), (leash, Some (Fin 1))] @ [(headband, Some (Fin 2))]"
      and later = "[]"]
  have tot: "totalAccessoriesOwned ((\<lambda>a. Fin 0)(collar := Fin (of_nat 1), leash := Fin (of_nat 1),
      headband := Fin (of_nat 2))) = Fin (of_nat 4)"
    using w0[THEN conjunct2, THEN conjunct2, THEN conjunct1, rule_format, of 1 1 2] by simp
  have d5: "days_5 (badges (state (store_of (apply_mutation (SetSelectedPet dog) freshStore)))) =
     num_ge (daysPlayed (state (store_of (apply_mutation (SetSelectedPet dog) freshStore)))) (Fin 5)"
    using w0 held by blast
  have a0: "\<not> accessory_1 (badges (state (run (map (\<lambda>(a, c). AddOwnedAccessory a c) []) freshStore)))"
    using w0 held cnt t0 by simp
  have a1: "accessory_1 (badges (state (run (map (\<lambda>(a, c). AddOwnedAccessory a c)
      [(collar, None)]) freshStore)))"
    "\<not> accessory_2 (badges (state (run (map (\<lambda>(a, c). AddOwnedAccessory a c)
      [(collar, None)]) freshStore)))"
    using w1 held cnt t1 by simp_all
  have a2: "accessory_2 (badges (state (run (map (\<lambda>(a, c). AddOwnedAccessory a c)
      [(collar, None), (leash, Some (Fin 1))]) freshStore)))"
    "\<not> accessory_4 (badges (state (run (map (\<lambda>(a, c). AddOwnedAccessory a c)
      [(collar, None), (leash, Some (Fin 1))]) freshStore)))"
    using w2 held cnt t2 by simp_all
  have a4: "accessory_4 (badges (state (run (map (\<lambda>(a, c). AddOwnedAccessory a c)
      ([(collar, None), (leash, Some (Fin 1))] @ [(headband, Some (Fin 2))])) freshStore)))"
    using w3 held cnt t4 by simp
  have a5: "accessory_2 (badges (state (run (map (\<lambda>(a, c). AddOwnedAccessory a c)
      ([(collar, None), (leash, Some (Fin 1))] @ [(headband, Some (Fin 2))])) freshStore)))"
    using w2 held cnt a2(1) by blast
  show ?thesis
    using held cnt tot a0 a1 a2 a4 a5 d5 by (intro conjI)
qed

section \<open>The transaction list is capped at 250, newest first\<close>

lemma take_append_take: "take n (xs @ take n ys) = take n (xs @ ys)"
  by (simp add: min_def)

lemma addTransaction_transactions:
  "transactions (state (addTransaction uid now tx st)) =
     take 250 (\<lparr> tx_id = uid, createdAt = now, tx_type = in_type tx,
                  amount = Math_max (Fin 0) (Math_round (in_amount tx)),
                  category = in_category tx, tx_note = in_note tx \<rparr> # transactions (state st))"
  by (simp add: addTransaction_def Let_def persist_sel commit_sel pushTransaction_def)

lemma run_addTransaction:
  "length (transactions (state st)) \<le> 250 \<Longrightarrow>
   transactions (state (run (map (\<lambda>(u, n, t). AddTransaction u n t) calls) st)) =
     take 250 (rev (map (\<lambda>(u, n, t).
                 \<lparr> tx_id = u, createdAt = n, tx_type = in_type t,
                   amount = Math_max (Fin 0) (Math_round (in_amount t)),
                   category = in_category t, tx_note = in_note t \<rparr>) calls)
               @ transactions (state st))"
proof (induction calls arbitrary: st)
  case Nil
  then show ?case by simp
next
  case (Cons c calls)
  obtain u n t where c: "c = (u, n, t)" by (cases c)
  have "length (transactions (state (addTransaction u n t st))) \<le> 250"
    by (simp add: addTransaction_transactions del: take_Cons_numeral)
  from Cons.IH[OF this] show ?case
    unfolding c
    by (simp add: addTransaction_transactions take_append_take del: take_Cons_numeral)
qed

text \<open>
  Claim C5. One call of \<open>addTransaction\<close> puts exactly one new record in front of the list
  and keeps the first 250 entries. After \<open>n\<close> calls on the fresh store the list is the
  newest-first list of the records added, cut to 250: its length is \<open>min n 250\<close> and its
  entries are the last \<open>min n 250\<close> records added, the newest first. Dropping the oldest
  entry is no error: the call returns a store.
\<close>

theorem addTransaction_cap:
  "transactions (state (addTransaction uid now tx st)) =
     take 250 (\<lparr> tx_id = uid, createdAt = now, tx_type = in_type tx,
                  amount = Math_max (Fin 0) (Math_round (in_amount tx)),
                  category = in_category tx, tx_note = in_note tx \<rparr> # transactions (state st)) \<and>
   length (transactions (state (addTransaction uid now tx st))) =
     min (Suc (length (transactions (state st)))) 250 \<and>
   transactions (state (run (map (\<lambda>(u, n, t). AddTransaction u n t) calls) freshStore)) =
     take 250 (rev (map (\<lambda>(u, n, t).
                 \<lparr> tx_id = u, createdAt = n, tx_type = in_type t,
                   amount = Math_max (Fin 0) (Math_round (in_amount t)),
                   category = in_category t, tx_note = in_note t \<rparr>) calls)) \<and>
   transactions (state (run (map (\<lambda>(u, n, t). AddTransaction u n t) calls) freshStore)) =
     rev (drop (length calls - 250) (map (\<lambda>(u, n, t).
                 \<lparr> tx_id = u, createdAt = n, tx_type = in_type t,
                   amount = Math_max (Fin 0) (Math_round (in_amount t)),
                   category = in_category t, tx_note = in_note t \<rparr>) calls)) \<and>
   length (transactions (state (run (map (\<lambda>(u, n, t). AddTransaction u n t) calls) freshStore))) =
     min (length calls) 250"
proof -
  have empty: "transactions (state freshStore) = []"
    by (simp add: state_freshStore defaultState_def)
  show ?thesis
    by (simp add: addTransaction_transactions run_addTransaction empty take_rev min_def
        del: take_Cons_numeral)
qed

text \<open>Three hundred calls leave 250 entries.\<close>

theorem addTransaction_cap_witness:
  "length (transactions (state (run (map (\<lambda>(u, n, t). AddTransaction u n t)
      (replicate 300 (''id'', Fin 0,
         \<lparr> in_type = income, in_amount = Fin 1, in_category = ''c'', in_note = ''n'' \<rparr>)))
      freshStore))) = 250"
  using addTransaction_cap[of "''id''" "Fin 0"
      "\<lparr> in_type = income, in_amount = Fin 1, in_category = ''c'', in_note = ''n'' \<rparr>" freshStore
      "replicate 300 (''id'', Fin 0,
         \<lparr> in_type = income, in_amount = Fin 1, in_category = ''c'', in_note = ''n'' \<rparr>)"]
  by simp


section \<open>Buying a premium pet\<close>

lemma purchase_noop:
  "ownedPets (state st) p \<or> num_lt (money (state st)) (Math_max (Fin 0) (Math_round cost)) \<Longrightarrow>
   purchasePremiumPet uid now p cost st = st"
  by (auto simp add: purchasePremiumPet_def Let_def)

lemma purchase_state:
  "\<not> ownedPets (state st) p \<Longrightarrow>
   \<not> num_lt (money (state st)) (Math_max (Fin 0) (Math_round cost)) \<Longrightarrow>
   state (purchasePremiumPet uid now p cost st) =
     commit ((state st)\<lparr>
       money := Math_max (Fin 0) (num_sub (money (state st)) (Math_max (Fin 0) (Math_round cost))),
       ownedPets := (ownedPets (state st))(p := True),
       transactions :=
         take 250 (\<lparr> tx_id = uid, createdAt = now, tx_type = expense,
                      amount = Math_max (Fin 0) (Math_round cost), category = ''Pet Purchase'',
                      tx_note = ''Purchased '' @ animalName p \<rparr> # transactions (state st))\<rparr>)"
  by (simp add: purchasePremiumPet_def Let_def persist_sel pushTransaction_def)

lemma purchase_money:
  "\<not> ownedPets (state st) p \<Longrightarrow>
   \<not> num_lt (money (state st)) (Math_max (Fin 0) (Math_round cost)) \<Longrightarrow>
   money (state (purchasePremiumPet uid now p cost st)) =
     or0 (Math_max (Fin 0) (num_sub (money (state st)) (Math_max (Fin 0) (Math_round cost))))"
proof -
  have "Math_max (Fin 0) (or0 (Math_max (Fin 0) x)) = or0 (Math_max (Fin 0) x)" for x
    by (cases x) simp_all
  then show "\<not> ownedPets (state st) p \<Longrightarrow>
   \<not> num_lt (money (state st)) (Math_max (Fin 0) (Math_round cost)) \<Longrightarrow>
   money (state (purchasePremiumPet uid now p cost st)) =
     or0 (Math_max (Fin 0) (num_sub (money (state st)) (Math_max (Fin 0) (Math_round cost))))"
    by (simp add: purchase_state commit_sel)
qed

lemma price_int: "Math_max (Fin 0) (Math_round cost) = Fin c \<Longrightarrow> c \<in> \<int> \<and> 0 \<le> c"
  by (cases cost) (auto split: if_splits)

lemma pay_safe:
  assumes "isCount (Fin m)" "m \<le> 9007199254740992" "c \<in> \<int>" "0 \<le> c" "\<not> num_lt (Fin m) (Fin c)"
  shows "Math_max (Fin 0) (num_sub (Fin m) (Fin c)) = Fin (m - c)"
proof -
  have "of_int \<lfloor>m\<rfloor> = m" "0 \<le> m" using assms(1) by simp_all
  then have m: "m \<in> \<int>" by (metis Ints_of_int)
  have le: "c \<le> m" using assms(5) by simp
  then have "\<bar>m - c\<bar> \<le> 9007199254740992" using assms(2,4) by simp
  from num_sub_int[OF m assms(3) this] show ?thesis using le by simp
qed

text \<open>
  Claim C6, as the spec has it: when \<open>money < cost\<close> the call changes nothing. The code
  compares the balance with the price \<open>Math.max(0, Math.round(cost))\<close>, not with the cost:
  with a balance of 10 and a cost of 10.25 the price is 10, the pet is bought and the
  balance is 0.
\<close>

theorem purchasePremiumPet_counterexample:
  "stored (state (walletStore 10)) \<and>
   \<not> ownedPets (state (walletStore 10)) unicorn \<and>
   num_lt (money (state (walletStore 10))) (Fin (41 / 4)) \<and>
   ownedPets (state (purchasePremiumPet ''id'' (Fin 0) unicorn (Fin (41 / 4)) (walletStore 10))) unicorn \<and>
   money (state (purchasePremiumPet ''id'' (Fin 0) unicorn (Fin (41 / 4)) (walletStore 10))) = Fin 0 \<and>
   purchasePremiumPet ''id'' (Fin 0) unicorn (Fin (41 / 4)) (walletStore 10) \<noteq> walletStore 10"
proof -
  have "\<lfloor>43 / 4 :: rat\<rfloor> = 10"
    by (rule floor_unique) simp_all
  then have r: "round (41 / 4 :: rat) = 10"
    by (simp add: round_def)
  have held: "stored (state (walletStore 10))"
    by (simp add: stored_def walletStore_def commit_def Let_def normalize_def defaultState_def
        clampNeeds_default computeBadges_def totalAccessoriesOwned_def num_ge_def defaultBadges_def
        toDouble_0)
  have own: "ownedPets (state (purchasePremiumPet ''id'' (Fin 0) unicorn (Fin (41 / 4)) (walletStore 10))) unicorn"
    by (simp add: purchasePremiumPet_def Let_def persist_sel commit_sel walletStore_def
        defaultState_def r)
  have mon: "money (state (purchasePremiumPet ''id'' (Fin 0) unicorn (Fin (41 / 4)) (walletStore 10))) = Fin 0"
    by (simp add: purchasePremiumPet_def Let_def persist_sel commit_sel walletStore_def
        defaultState_def r num_sub_def toDouble_0)
  have ne: "purchasePremiumPet ''id'' (Fin 0) unicorn (Fin (41 / 4)) (walletStore 10) \<noteq> walletStore 10"
  proof
    assume "purchasePremiumPet ''id'' (Fin 0) unicorn (Fin (41 / 4)) (walletStore 10) = walletStore 10"
    then have "money (state (walletStore 10)) = Fin 0" using mon by simp
    then show False by (simp add: walletStore_def)
  qed
  show ?thesis
    using held own mon ne by (simp add: walletStore_def defaultState_def)
qed

text \<open>
  Claim C6, amended. Let \<open>price\<close> be \<open>Math.max(0, Math.round(cost))\<close>; it is the cost
  itself when the cost is a non-negative integer. If the pet is not owned and the balance
  is not below the price, one call commits the state with the balance lowered by the
  price, the pet owned and exactly one expense transaction of the price in front of the
  list; any further purchase of that pet returns the store as it is. The new balance is
  the double nearest to the difference, floored at 0 (and 0 when the difference is
  \<open>NaN\<close>, both being infinite); it is the difference \<open>m - c\<close>
  itself when the balance \<open>m\<close> is a non-negative integer of at most 9007199254740992. If
  the pet is already owned, or the balance is below the price, the call returns the store
  as it is.
\<close>

theorem purchasePremiumPet_atomic:
  "(\<not> ownedPets (state st) p \<and>
    \<not> num_lt (money (state st)) (Math_max (Fin 0) (Math_round cost)) \<longrightarrow>
      state (purchasePremiumPet uid now p cost st) =
        commit ((state st)\<lparr>
          money := Math_max (Fin 0) (num_sub (money (state st)) (Math_max (Fin 0) (Math_round cost))),
          ownedPets := (ownedPets (state st))(p := True),
          transactions :=
            take 250 (\<lparr> tx_id = uid, createdAt = now, tx_type = expense,
                         amount = Math_max (Fin 0) (Math_round cost), category = ''Pet Purchase'',
                         tx_note = ''Purchased '' @ animalName p \<rparr> # transactions (state st))\<rparr>) \<and>
      petAges (purchasePremiumPet uid now p cost st) = petAges st \<and>
      ownedPets (state (purchasePremiumPet uid now p cost st)) = (ownedPets (state st))(p := True) \<and>
      transactions (state (purchasePremiumPet uid now p cost st)) =
        take 250 (\<lparr> tx_id = uid, createdAt = now, tx_type = expense,
                     amount = Math_max (Fin 0) (Math_round cost), category = ''Pet Purchase'',
                     tx_note = ''Purchased '' @ animalName p \<rparr> # transactions (state st)) \<and>
      money (state (purchasePremiumPet uid now p cost st)) =
        or0 (Math_max (Fin 0) (num_sub (money (state st)) (Math_max (Fin 0) (Math_round cost)))) \<and>
      (\<forall>m c. money (state st) = Fin m \<and> isSafeCount (Fin m) \<and>
             Math_max (Fin 0) (Math_round cost) = Fin c \<longrightarrow>
             money (state (purchasePremiumPet uid now p cost st)) = Fin (m - c)) \<and>
      (\<forall>uid' now' cost'.
         purchasePremiumPet uid' now' p cost' (purchasePremiumPet uid now p cost st) =
         purchasePremiumPet uid now p cost st)) \<and>
   (ownedPets (state st) p \<or>
    num_lt (money (state st)) (Math_max (Fin 0) (Math_round cost)) \<longrightarrow>
      purchasePremiumPet uid now p cost st = st) \<and>
   (\<forall>k. cost = Fin (of_nat k) \<longrightarrow> Math_max (Fin 0) (Math_round cost) = cost)"
proof (intro conjI impI allI)
  assume ok: "\<not> ownedPets (state st) p \<and>
    \<not> num_lt (money (state st)) (Math_max (Fin 0) (Math_round cost))"
  then have free: "\<not> ownedPets (state st) p"
    and afford: "\<not> num_lt (money (state st)) (Math_max (Fin 0) (Math_round cost))"
    by simp_all
  note st = purchase_state[OF free afford, of uid now]
  show "state (purchasePremiumPet uid now p cost st) =
        commit ((state st)\<lparr>
          money := Math_max (Fin 0) (num_sub (money (state st)) (Math_max (Fin 0) (Math_round cost))),
          ownedPets := (ownedPets (state st))(p := True),
          transactions :=
            take 250 (\<lparr> tx_id = uid, createdAt = now, tx_type = expense,
                         amount = Math_max (Fin 0) (Math_round cost), category = ''Pet Purchase'',
                         tx_note = ''Purchased '' @ animalName p \<rparr> # transactions (state st))\<rparr>)"
    by (rule st)
  show "petAges (purchasePremiumPet uid now p cost st) = petAges st"
    using free afford by (simp add: purchasePremiumPet_def Let_def persist_sel)
  show own: "ownedPets (state (purchasePremiumPet uid now p cost st)) = (ownedPets (state st))(p := True)"
    by (simp add: st commit_sel)
  show "transactions (state (purchasePremiumPet uid now p cost st)) =
        take 250 (\<lparr> tx_id = uid, createdAt = now, tx_type = expense,
                     amount = Math_max (Fin 0) (Math_round cost), category = ''Pet Purchase'',
                     tx_note = ''Purchased '' @ animalName p \<rparr> # transactions (state st))"
    by (simp add: st commit_sel del: take_Cons_numeral)
  show mon: "money (state (purchasePremiumPet uid now p cost st)) =
        or0 (Math_max (Fin 0) (num_sub (money (state st)) (Math_max (Fin 0) (Math_round cost))))"
    using free afford by (rule purchase_money)
  show "money (state (purchasePremiumPet uid now p cost st)) = Fin (m - c)"
    if h: "money (state st) = Fin m \<and> isSafeCount (Fin m) \<and>
           Math_max (Fin 0) (Math_round cost) = Fin c" for m c
  proof -
    have c: "c \<in> \<int>" "0 \<le> c" using h price_int by blast+
    have m: "isCount (Fin m)" "m \<le> 9007199254740992"
      using h by (simp_all add: isSafeCount_def)
    have "\<not> num_lt (Fin m) (Fin c)" using afford h by simp
    from pay_safe[OF m c this] show ?thesis using h by (simp add: mon)
  qed
  show "purchasePremiumPet uid' now' p cost' (purchasePremiumPet uid now p cost st) =
         purchasePremiumPet uid now p cost st" for uid' now' cost'
    by (rule purchase_noop) (simp add: own)
next
  assume "ownedPets (state st) p \<or>
    num_lt (money (state st)) (Math_max (Fin 0) (Math_round cost))"
  then show "purchasePremiumPet uid now p cost st = st"
    by (rule purchase_noop)
next
  fix k :: nat
  assume "cost = Fin (of_nat k)"
  then show "Math_max (Fin 0) (Math_round cost) = cost"
    by simp
qed

text \<open>
  The spec's example: with a balance of 500, buying the dragon for 500 leaves a balance of
  0, the dragon owned and one expense transaction of 500; the same call again changes
  nothing. With a balance of 499 the first call already changes nothing.
\<close>

theorem purchasePremiumPet_atomic_witness:
  "\<not> ownedPets (state (walletStore 500)) dragon \<and>
   \<not> num_lt (money (state (walletStore 500))) (Math_max (Fin 0) (Math_round (Fin 500))) \<and>
   money (state (purchasePremiumPet ''id'' (Fin 7) dragon (Fin 500) (walletStore 500))) = Fin 0 \<and>
   ownedPets (state (purchasePremiumPet ''id'' (Fin 7) dragon (Fin 500) (walletStore 500))) dragon \<and>
   transactions (state (purchasePremiumPet ''id'' (Fin 7) dragon (Fin 500) (walletStore 500))) =
     [\<lparr> tx_id = ''id'', createdAt = Fin 7, tx_type = expense, amount = Fin 500,
        category = ''Pet Purchase'', tx_note = ''Purchased dragon'' \<rparr>] \<and>
   purchasePremiumPet ''id2'' (Fin 8) dragon (Fin 500)
       (purchasePremiumPet ''id'' (Fin 7) dragon (Fin 500) (walletStore 500)) =
     purchasePremiumPet ''id'' (Fin 7) dragon (Fin 500) (walletStore 500) \<and>
   num_lt (money (state (walletStore 499))) (Math_max (Fin 0) (Math_round (Fin 500))) \<and>
   purchasePremiumPet ''id'' (Fin 7) dragon (Fin 500) (walletStore 499) = walletStore 499"
proof -
  have a: "\<not> ownedPets (state (walletStore 500)) dragon"
    by (simp add: walletStore_def defaultState_def)
  have b: "\<not> num_lt (money (state (walletStore 500))) (Math_max (Fin 0) (Math_round (Fin 500)))"
    by (simp add: walletStore_def defaultState_def)
  have c: "num_lt (money (state (walletStore 499))) (Math_max (Fin 0) (Math_round (Fin 500)))"
    by (simp add: walletStore_def defaultState_def)
  have m: "money (state (walletStore 500)) = Fin 500"
    by (simp add: walletStore_def defaultState_def)
  have t: "transactions (state (walletStore 500)) = []"
    by (simp add: walletStore_def defaultState_def)
  have pr: "Math_max (Fin 0) (Math_round (Fin 500)) = Fin 500"
    by simp
  have sc: "isSafeCount (Fin 500)"
    by (simp add: isSafeCount_def)
  note t1 = purchasePremiumPet_atomic[of "walletStore 500" dragon "Fin 500" "''id''" "Fin 7"]
  note t2 = purchasePremiumPet_atomic[of "walletStore 499" dragon "Fin 500" "''id''" "Fin 7"]
  have m': "money (state (purchasePremiumPet ''id'' (Fin 7) dragon (Fin 500) (walletStore 500))) = Fin 0"
    using t1 a b m sc pr by auto
  have rest: "ownedPets (state (purchasePremiumPet ''id'' (Fin 7) dragon (Fin 500) (walletStore 500))) dragon"
    "transactions (state (purchasePremiumPet ''id'' (Fin 7) dragon (Fin 500) (walletStore 500))) =
     [\<lparr> tx_id = ''id'', createdAt = Fin 7, tx_type = expense, amount = Fin 500,
        category = ''Pet Purchase'', tx_note = ''Purchased dragon'' \<rparr>]"
    "purchasePremiumPet ''id2'' (Fin 8) dragon (Fin 500)
       (purchasePremiumPet ''id'' (Fin 7) dragon (Fin 500) (walletStore 500)) =
     purchasePremiumPet ''id'' (Fin 7) dragon (Fin 500) (walletStore 500)"
    using conjunct1[OF t1] a b by (simp_all add: t pr commit_sel walletStore_def defaultState_def)
  have no: "purchasePremiumPet ''id'' (Fin 7) dragon (Fin 500) (walletStore 499) = walletStore 499"
    using t2 c by simp
  show ?thesis
    using a b c m' rest no by simp
qed


section \<open>Applying a money delta\<close>

lemma floor0_or0: "Math_max (Fin 0) (or0 (Math_max (Fin 0) x)) = or0 (Math_max (Fin 0) x)"
  by (cases x) simp_all

lemma or0_floor0_nonneg: "num_ge (or0 (Math_max (Fin 0) x)) (Fin 0)"
  by (cases x) (simp_all add: num_ge_def)

lemma applyMoneyDelta_money:
  "money (state (applyMoneyDelta uid now delta meta st)) =
     or0 (Math_max (Fin 0) (Math_round (num_add (money (state st)) delta)))"
  by (simp add: applyMoneyDelta_def Let_def persist_sel commit_sel floor0_or0)

lemma applyMoneyDelta_transactions:
  "transactions (state (applyMoneyDelta uid now delta meta st)) =
     take 250
       (\<lparr> tx_id = uid, createdAt = now,
           tx_type = (if num_ge delta (Fin 0) then income else expense),
           amount = Math_abs (Math_round delta),
           category =
             (case Option.bind meta meta_category of
                Some c \<Rightarrow> c
              | None \<Rightarrow> (if num_ge delta (Fin 0) then ''Game Earned'' else ''Game Spent'')),
           tx_note =
             (case Option.bind meta meta_note of
                Some n \<Rightarrow> n
              | None \<Rightarrow> (if num_ge delta (Fin 0) then ''Earned on Map'' else ''Spent on Map'')) \<rparr>
        # transactions (state st))"
  by (simp add: applyMoneyDelta_def Let_def persist_sel commit_sel pushTransaction_def
      del: take_Cons_numeral)

text \<open>
  Claim C7, as the spec has it: the new balance is the previous balance plus the delta,
  floored at 0. The code rounds the sum first: on a balance of 0 a delta of 1/2 gives a
  balance of 1, where the balance plus the delta is 1/2.
\<close>

theorem applyMoneyDelta_counterexample:
  "money (state freshStore) = Fin 0 \<and>
   Math_max (Fin 0) (num_add (money (state freshStore)) (Fin (1 / 2))) = Fin (1 / 2) \<and>
   money (state (applyMoneyDelta ''id'' (Fin 0) (Fin (1 / 2)) None freshStore)) = Fin 1"
proof -
  have "\<lfloor>1 :: rat\<rfloor> = 1" by simp
  then have r: "round (1 / 2 :: rat) = 1" by (simp add: round_def)
  show ?thesis
    by (simp add: applyMoneyDelta_money state_freshStore defaultState_def toDouble_half r)
qed

text \<open>
  Claim C7, amended. For every delta, \<open>applyMoneyDelta\<close> sets the balance to the previous
  balance plus the delta (the double nearest to that sum), rounded to the nearest integer
  and then floored at 0 (and to 0 when that sum is \<open>NaN\<close>); the balance is never negative
  afterwards, and when the balance and the delta are integers whose sum is between
  \<open>-9007199254740992\<close> and 9007199254740992 it is their sum floored at 0. The call puts exactly one new
  transaction in front of the list, kept to 250 entries: its type is income when
  \<open>delta >= 0\<close> and expense otherwise, its amount is the absolute value of the rounded
  delta, and its category and note are those of \<open>meta\<close> where given and the defaults of the
  type otherwise.
\<close>

theorem applyMoneyDelta_floor_and_log:
  "money (state (applyMoneyDelta uid now delta meta st)) =
     or0 (Math_max (Fin 0) (Math_round (num_add (money (state st)) delta))) \<and>
   num_ge (money (state (applyMoneyDelta uid now delta meta st))) (Fin 0) \<and>
   (\<forall>m d. money (state st) = Fin (of_int m) \<and> delta = Fin (of_int d) \<and>
          \<bar>m + d\<bar> \<le> 9007199254740992 \<longrightarrow>
      money (state (applyMoneyDelta uid now delta meta st)) = Fin (of_int (max 0 (m + d)))) \<and>
   transactions (state (applyMoneyDelta uid now delta meta st)) =
     take 250
       (\<lparr> tx_id = uid, createdAt = now,
           tx_type = (if num_ge delta (Fin 0) then income else expense),
           amount = Math_abs (Math_round delta),
           category =
             (case Option.bind meta meta_category of
                Some c \<Rightarrow> c
              | None \<Rightarrow> (if num_ge delta (Fin 0) then ''Game Earned'' else ''Game Spent'')),
           tx_note =
             (case Option.bind meta meta_note of
                Some n \<Rightarrow> n
              | None \<Rightarrow> (if num_ge delta (Fin 0) then ''Earned on Map'' else ''Spent on Map'')) \<rparr>
        # transactions (state st))"
proof (intro conjI allI impI)
  show "money (state (applyMoneyDelta uid now delta meta st)) =
     or0 (Math_max (Fin 0) (Math_round (num_add (money (state st)) delta)))"
    by (rule applyMoneyDelta_money)
  show "num_ge (money (state (applyMoneyDelta uid now delta meta st))) (Fin 0)"
    by (simp add: applyMoneyDelta_money or0_floor0_nonneg)
  show "money (state (applyMoneyDelta uid now delta meta st)) = Fin (of_int (max 0 (m + d)))"
    if h: "money (state st) = Fin (of_int m) \<and> delta = Fin (of_int d) \<and>
           \<bar>m + d\<bar> \<le> 9007199254740992" for m d
  proof -
    have "(of_int \<bar>m + d\<bar> :: rat) \<le> of_int 9007199254740992"
      using h by (simp only: of_int_le_iff)
    then have "\<bar>of_int m + of_int d :: rat\<bar> \<le> 9007199254740992"
      by simp
    then have "num_add (Fin (of_int m)) (Fin (of_int d)) = Fin (of_int m + of_int d)"
      by (intro num_add_int) simp_all
    then have s: "num_add (Fin (of_int m)) (Fin (of_int d)) = Fin (of_int (m + d))"
      by simp
    have hm: "money (state st) = Fin (of_int m)" and hd: "delta = Fin (of_int d)"
      using h by simp_all
    have "money (state (applyMoneyDelta uid now delta meta st)) =
          or0 (Math_max (Fin 0) (Math_round (Fin (of_int (m + d)))))"
      unfolding applyMoneyDelta_money hm hd s ..
    moreover have "round (of_int (m + d) :: rat) = m + d"
      by (rule round_of_int)
    ultimately show ?thesis
      by (simp add: max_def del: of_int_add)
  qed
  show "transactions (state (applyMoneyDelta uid now delta meta st)) =
     take 250
       (\<lparr> tx_id = uid, createdAt = now,
           tx_type = (if num_ge delta (Fin 0) then income else expense),
           amount = Math_abs (Math_round delta),
           category =
             (case Option.bind meta meta_category of
                Some c \<Rightarrow> c
              | None \<Rightarrow> (if num_ge delta (Fin 0) then ''Game Earned'' else ''Game Spent'')),
           tx_note =
             (case Option.bind meta meta_note of
                Some n \<Rightarrow> n
              | None \<Rightarrow> (if num_ge delta (Fin 0) then ''Earned on Map'' else ''Spent on Map'')) \<rparr>
        # transactions (state st))"
    by (rule applyMoneyDelta_transactions)
qed

text \<open>
  The spec's example: on a balance of 50 a delta of \<open>-1000000\<close> leaves a balance of 0 and
  logs an expense of 1000000 with the default category and note; a delta of 25 with a
  category given logs an income of 25 under that category and leaves a balance of 75.
\<close>

theorem applyMoneyDelta_floor_and_log_witness:
  "money (state (walletStore 50)) = Fin 50 \<and>
   money (state (applyMoneyDelta ''id'' (Fin 7) (Fin (- 1000000)) None (walletStore 50))) = Fin 0 \<and>
   transactions (state (applyMoneyDelta ''id'' (Fin 7) (Fin (- 1000000)) None (walletStore 50))) =
     [\<lparr> tx_id = ''id'', createdAt = Fin 7, tx_type = expense, amount = Fin 1000000,
        category = ''Game Spent'', tx_note = ''Spent on Map'' \<rparr>] \<and>
   money (state (applyMoneyDelta ''id'' (Fin 7) (Fin 25)
      (Some \<lparr> meta_category = Some ''Restaurant'', meta_note = None \<rparr>) (walletStore 50))) = Fin 75 \<and>
   transactions (state (applyMoneyDelta ''id'' (Fin 7) (Fin 25)
      (Some \<lparr> meta_category = Some ''Restaurant'', meta_note = None \<rparr>) (walletStore 50))) =
     [\<lparr> tx_id = ''id'', createdAt = Fin 7, tx_type = income, amount = Fin 25,
        category = ''Restaurant'', tx_note = ''Earned on Map'' \<rparr>]"
proof -
  have m: "money (state (walletStore 50)) = Fin 50"
    by (simp add: walletStore_def defaultState_def)
  have t: "transactions (state (walletStore 50)) = []"
    by (simp add: walletStore_def defaultState_def)
  note a = applyMoneyDelta_floor_and_log[of "''id''" "Fin 7" "Fin (- 1000000)" None "walletStore 50"]
  note b = applyMoneyDelta_floor_and_log[of "''id''" "Fin 7" "Fin 25"
      "Some \<lparr> meta_category = Some ''Restaurant'', meta_note = None \<rparr>" "walletStore 50"]
  have a1: "money (state (applyMoneyDelta ''id'' (Fin 7) (Fin (- 1000000)) None (walletStore 50))) = Fin 0"
    using a[THEN conjunct2, THEN conjunct2, THEN conjunct1, rule_format, of 50 "- 1000000"]
    by (simp add: m)
  have a2: "transactions (state (applyMoneyDelta ''id'' (Fin 7) (Fin (- 1000000)) None (walletStore 50))) =
     [\<lparr> tx_id = ''id'', createdAt = Fin 7, tx_type = expense, amount = Fin 1000000,
        category = ''Game Spent'', tx_note = ''Spent on Map'' \<rparr>]"
    by (simp add: applyMoneyDelta_transactions t num_ge_def)
  have b1: "money (state (applyMoneyDelta ''id'' (Fin 7) (Fin 25)
      (Some \<lparr> meta_category = Some ''Restaurant'', meta_note = None \<rparr>) (walletStore 50))) = Fin 75"
    using b[THEN conjunct2, THEN conjunct2, THEN conjunct1, rule_format, of 50 25]
    by (simp add: m)
  have b2: "transactions (state (applyMoneyDelta ''id'' (Fin 7) (Fin 25)
      (Some \<lparr> meta_category = Some ''Restaurant'', meta_note = None \<rparr>) (walletStore 50))) =
     [\<lparr> tx_id = ''id'', createdAt = Fin 7, tx_type = income, amount = Fin 25,
        category = ''Restaurant'', tx_note = ''Earned on Map'' \<rparr>]"
    by (simp add: applyMoneyDelta_transactions t num_ge_def)
  show ?thesis
    using a1 a2 b1 b2 m by simp
qed


section \<open>Equipping requires ownership\<close>

lemma equipOwned_cong:
  "ownedAccessories s' a = ownedAccessories s a \<Longrightarrow>
   equippedAccessories s' a = equippedAccessories s a \<Longrightarrow>
   equipOwned s' a = equipOwned s a"
  by (simp add: equipOwned_def)

lemma equipOwned_setEquipped:
  assumes "equipOwned (state st) b"
  shows "equipOwned (state (setEquippedAccessory a e st)) b"
proof (cases "e \<and> num_le (ownedAccessories (state st) a) (Fin 0)")
  case True
  then show ?thesis using assms by (simp add: setEquippedAccessory_def)
next
  case False
  then have eq: "equippedAccessories (state (setEquippedAccessory a e st)) =
      (equippedAccessories (state st))(a := e)"
    by (auto simp add: setEquippedAccessory_def persist_sel commit_sel)
  show ?thesis
    using assms False positive_when_accepted[of "ownedAccessories (state st) a"]
    by (auto simp add: equipOwned_def eq setEquippedAccessory_keeps)
qed

lemma equipOwned_addOwned:
  assumes "equipOwned (state st) b"
  shows "equipOwned (state (addOwnedAccessory a c st)) b"
proof -
  let ?c = "case c of Some n \<Rightarrow> n | None \<Rightarrow> Fin 1"
  show ?thesis
  proof (cases "num_le (Math_max (Fin 0) (Math_floor (or0 ?c))) (Fin 0)")
    case True
    then show ?thesis using assms by (simp add: addOwnedAccessory_def Let_def)
  next
    case False
    have nn: "num_ge (ownedAccessories (state st) b) (Fin 0)"
      using assms by (simp add: equipOwned_def)
    show ?thesis
    proof (cases "b = a")
      case True
      with nn have "num_ge (ownedAccessories (state st) a) (Fin 0)" by simp
      from owned_grows[OF this False] show ?thesis
        using False True
        by (simp add: equipOwned_def addOwnedAccessory_owned Let_def addOwnedAccessory_keeps)
    next
      case neq: False
      then show ?thesis
        using assms False
        by (simp add: equipOwned_def addOwnedAccessory_owned Let_def addOwnedAccessory_keeps)
    qed
  qed
qed

lemma equipOwned_apply:
  assumes "equipOwned (state st) b"
  shows "equipOwned (state (store_of (apply_mutation m st))) b"
proof (cases m)
  case (SetEquippedAccessory a e)
  then show ?thesis using assms by (simp add: equipOwned_setEquipped)
next
  case (AddOwnedAccessory a c)
  then show ?thesis using assms by (simp add: equipOwned_addOwned)
next
  case (SetSelectedPet a)
  then show ?thesis using assms
    by (simp add: equipOwned_cong[of "state (setSelectedPet a st)" b "state st"] setSelectedPet_keeps)
next
  case (AddTransaction uid now tx)
  then show ?thesis using assms
    by (simp add: equipOwned_cong[of "state (addTransaction uid now tx st)" b "state st"]
        addTransaction_keeps)
next
  case (ApplyMoneyDelta uid now delta meta)
  then show ?thesis using assms
    by (simp add: equipOwned_cong[of "state (applyMoneyDelta uid now delta meta st)" b "state st"]
        applyMoneyDelta_keeps)
next
  case (SetNeed n v)
  then show ?thesis using assms
    by (simp add: equipOwned_cong[of "state (store_of (setNeed n v st))" b "state st"] setNeed_keeps)
next
  case (BumpNeed n d)
  then show ?thesis using assms
    by (simp add: bumpNeed_setNeed
        equipOwned_cong[of "state (store_of (setNeed n (num_add (needs (state st) n) d) st))" b
          "state st"]
        setNeed_keeps)
next
  case (IncrementDaysPlayed x)
  then show ?thesis using assms by (simp add: incrementDaysPlayed_def)
next
  case (PurchasePremiumPet uid now p c)
  then show ?thesis using assms
    by (simp add: equipOwned_cong[of "state (purchasePremiumPet uid now p c st)" b "state st"]
        purchasePremiumPet_keeps)
qed

lemma equipRequiresOwnership_apply:
  "equipRequiresOwnership (state st) \<Longrightarrow> equipRequiresOwnership (state (store_of (apply_mutation m st)))"
  by (simp add: equipRequiresOwnership_def equipOwned_apply)

lemma equipRequiresOwnership_run:
  "equipRequiresOwnership (state st) \<Longrightarrow> equipRequiresOwnership (state (run ms st))"
  by (induction ms arbitrary: st) (simp_all add: equipRequiresOwnership_apply)

lemma equipRequiresOwnership_fresh: "equipRequiresOwnership (state freshStore)"
  by (simp add: equipRequiresOwnership_def equipOwned_def state_freshStore defaultState_def num_ge_def)

text \<open>
  Claim C8, as the spec has it: in every state the store holds, an equipped accessory is
  owned. The initial state is the normalized loaded state, and \<open>normalize\<close> merges
  \<open>equippedAccessories\<close> and \<open>ownedAccessories\<close> with the defaults without comparing them:
  a stored profile with the collar equipped and no collar owned starts the store in that
  state.
\<close>

theorem equip_invariant_counterexample:
  "stored (initialState (Some (defaultState\<lparr>equippedAccessories :=
      (equippedAccessories defaultState)(collar := True)\<rparr>))) \<and>
   equippedAccessories (initialState (Some (defaultState\<lparr>equippedAccessories :=
      (equippedAccessories defaultState)(collar := True)\<rparr>))) collar \<and>
   ownedAccessories (initialState (Some (defaultState\<lparr>equippedAccessories :=
      (equippedAccessories defaultState)(collar := True)\<rparr>))) collar = Fin 0 \<and>
   \<not> equipRequiresOwnership (initialState (Some (defaultState\<lparr>equippedAccessories :=
      (equippedAccessories defaultState)(collar := True)\<rparr>)))"
  by (simp add: stored_commit initialState_Some commit_sel defaultState_def
      equipRequiresOwnership_def equipOwned_def)

text \<open>
  Claim C8, amended. The invariant (every owned count is non-negative, and an equipped
  accessory has an owned count above 0) is kept by every mutator call and every run of
  calls, so it holds in every state reached from the fresh store; \<open>normalize\<close> does not
  establish it for a loaded state. For every accessory, \<open>setEquippedAccessory a True\<close>
  returns the store unchanged when the owned count of \<open>a\<close> is 0 (or below), and
  \<open>setEquippedAccessory a False\<close> always commits the flag of \<open>a\<close> as false, the other
  flags as they were.
\<close>

theorem equip_requires_ownership:
  "(equipRequiresOwnership (state st) \<longrightarrow>
      equipRequiresOwnership (state (store_of (apply_mutation m st))) \<and>
      equipRequiresOwnership (state (run ms st))) \<and>
   equipRequiresOwnership (state (run ms freshStore)) \<and>
   (num_le (ownedAccessories (state st) a) (Fin 0) \<longrightarrow> setEquippedAccessory a True st = st) \<and>
   equippedAccessories (state (setEquippedAccessory a False st)) =
     (equippedAccessories (state st))(a := False)"
proof (intro conjI impI)
  assume inv: "equipRequiresOwnership (state st)"
  show "equipRequiresOwnership (state (store_of (apply_mutation m st)))"
    using inv by (rule equipRequiresOwnership_apply)
  show "equipRequiresOwnership (state (run ms st))"
    using inv by (rule equipRequiresOwnership_run)
next
  show "equipRequiresOwnership (state (run ms freshStore))"
    using equipRequiresOwnership_fresh by (rule equipRequiresOwnership_run)
next
  assume "num_le (ownedAccessories (state st) a) (Fin 0)"
  then show "setEquippedAccessory a True st = st"
    by (simp add: setEquippedAccessory_def)
next
  show "equippedAccessories (state (setEquippedAccessory a False st)) =
     (equippedAccessories (state st))(a := False)"
    by (simp add: setEquippedAccessory_def persist_sel commit_sel)
qed

text \<open>
  The spec's example on the fresh store: equipping the collar with none owned changes
  nothing; after one collar is added the same call equips it, and the invariant holds
  with the collar equipped.
\<close>

theorem equip_requires_ownership_witness:
  "equipRequiresOwnership (state freshStore) \<and>
   num_le (ownedAccessories (state freshStore) collar) (Fin 0) \<and>
   setEquippedAccessory collar True freshStore = freshStore \<and>
   \<not> equippedAccessories (state (setEquippedAccessory collar True freshStore)) collar \<and>
   equippedAccessories (state (run [AddOwnedAccessory collar None,
      SetEquippedAccessory collar True] freshStore)) collar \<and>
   equipRequiresOwnership (state (run [AddOwnedAccessory collar None,
      SetEquippedAccessory collar True] freshStore)) \<and>
   \<not> equippedAccessories (state (setEquippedAccessory collar False
      (run [AddOwnedAccessory collar None, SetEquippedAccessory collar True] freshStore))) collar"
proof -
  have z: "num_le (ownedAccessories (state freshStore) collar) (Fin 0)"
    by (simp add: state_freshStore defaultState_def)
  have n: "\<not> equippedAccessories (state freshStore) collar"
    by (simp add: state_freshStore defaultState_def)
  have e: "equippedAccessories (state (run [AddOwnedAccessory collar None,
      SetEquippedAccessory collar True] freshStore)) collar"
    by (simp add: setEquippedAccessory_def addOwnedAccessory_owned Let_def persist_sel commit_sel
        state_freshStore defaultState_def toDouble_int)
  show ?thesis
    using equip_requires_ownership[of freshStore "AddOwnedAccessory collar None"
            "[AddOwnedAccessory collar None, SetEquippedAccessory collar True]" collar]
          equip_requires_ownership[of "run [AddOwnedAccessory collar None,
            SetEquippedAccessory collar True] freshStore" "AddOwnedAccessory collar None" "[]" collar]
          equipRequiresOwnership_fresh z n e
    by simp
qed


section \<open>The day counter\<close>

lemma days_after_persist:
  assumes "stored (state st)" "daysPlayed raw = daysPlayed (state st)"
  shows "daysPlayed (state (persist raw st)) = daysPlayed (state st)"
  using assms by (simp add: persist_sel commit_sel stored_days)

lemma days_apply_mutation:
  assumes held: "stored (state st)"
  shows "daysPlayed (state (store_of (apply_mutation m st))) = daysPlayed (state st) \<or>
         daysPlayed (state (store_of (apply_mutation m st))) = num_add (daysPlayed (state st)) (Fin 1) \<and>
         (\<exists>n v. m = SetNeed n v \<or> m = BumpNeed n v)"
proof -
  note d = stored_days[OF held]
  note d1 = floor0_add1[OF d]
  show ?thesis
  proof (cases m)
    case (SetSelectedPet a)
    then show ?thesis by (simp add: setSelectedPet_keeps d)
  next
    case (SetEquippedAccessory a e)
    then show ?thesis
      by (simp add: setEquippedAccessory_def days_after_persist[OF held])
  next
    case (AddTransaction uid now tx)
    then show ?thesis by (simp add: addTransaction_keeps d)
  next
    case (ApplyMoneyDelta uid now delta meta)
    then show ?thesis by (simp add: applyMoneyDelta_keeps d)
  next
    case (SetNeed n v)
    then show ?thesis by (simp add: setNeed_days d d1)
  next
    case (BumpNeed n v)
    then show ?thesis by (simp add: bumpNeed_setNeed setNeed_days d d1)
  next
    case (IncrementDaysPlayed b)
    then show ?thesis by (simp add: incrementDaysPlayed_def)
  next
    case (AddOwnedAccessory a c)
    then show ?thesis
      by (simp add: addOwnedAccessory_def Let_def days_after_persist[OF held])
  next
    case (PurchasePremiumPet uid now p c)
    then show ?thesis
      by (simp add: purchasePremiumPet_def Let_def days_after_persist[OF held])
  qed
qed

lemma stored_days_shape:
  assumes "stored s"
  shows "daysPlayed s = PosInf \<or> (\<exists>q. daysPlayed s = Fin q \<and> 0 \<le> q)"
  using stored_days[OF assms] by (cases "daysPlayed s") (simp_all split: if_splits)

lemma days_le_add1:
  assumes "stored s" "isDouble (daysPlayed s)"
  shows "num_le (daysPlayed s) (daysPlayed s)"
    and "num_le (daysPlayed s) (num_add (daysPlayed s) (Fin 1))"
  using stored_days_shape[OF assms(1)] assms(2) num_add_grow by auto

lemma days_le_apply:
  assumes held: "stored (state st)" and dbl: "isDouble (daysPlayed (state st))"
  shows "num_le (daysPlayed (state st)) (daysPlayed (state (store_of (apply_mutation m st))))"
  using days_apply_mutation[OF held, of m] days_le_add1[OF held dbl] by auto

lemma safe_add1:
  assumes "isSafeCount d"
  shows "isSafeCount (num_add d (Fin 1))" and "num_le d (num_add d (Fin 1))"
proof -
  obtain q where q: "d = Fin q" "isCount (Fin q)" "q \<le> 9007199254740992"
    using assms by (cases d) (simp_all add: isSafeCount_def)
  have "isSafeCount (num_add d (Fin 1)) \<and> num_le d (num_add d (Fin 1))"
  proof (cases "q = 9007199254740992")
    case True
    then show ?thesis using toDouble_tie by (simp add: q(1) isSafeCount_def)
  next
    case False
    then have lt: "q < 9007199254740992" using q(3) by simp
    have i: "of_int \<lfloor>q\<rfloor> = q" "0 \<le> q" using q(2) by simp_all
    then obtain n :: int where n: "q = of_int n" by metis
    then have "n < 9007199254740992" using lt by simp
    then have "n + 1 \<le> 9007199254740992" by simp
    then have "(of_int (n + 1) :: rat) \<le> of_int 9007199254740992" by (simp only: of_int_le_iff)
    then have b: "q + 1 \<le> 9007199254740992" using n by simp
    have "of_int \<lfloor>q + 1\<rfloor> = q + 1" using n by simp
    then show ?thesis
      using count_plus_one[OF q(2) lt] b i(2)
      by (simp add: q(1) isSafeCount_def del: num_add.simps)
  qed
  then show "isSafeCount (num_add d (Fin 1))" and "num_le d (num_add d (Fin 1))"
    by simp_all
qed

lemma safe_apply:
  assumes "stored (state st)" "isSafeCount (daysPlayed (state st))"
  shows "isSafeCount (daysPlayed (state (store_of (apply_mutation m st))))"
    and "num_le (daysPlayed (state st)) (daysPlayed (state (store_of (apply_mutation m st))))"
proof -
  have "num_le (daysPlayed (state st)) (daysPlayed (state st))"
    using assms(2) by (cases "daysPlayed (state st)") (simp_all add: isSafeCount_def)
  then have "isSafeCount (daysPlayed (state (store_of (apply_mutation m st)))) \<and>
        num_le (daysPlayed (state st)) (daysPlayed (state (store_of (apply_mutation m st))))"
    using days_apply_mutation[OF assms(1), of m] assms(2) safe_add1[OF assms(2)] by auto
  then show "isSafeCount (daysPlayed (state (store_of (apply_mutation m st))))"
    and "num_le (daysPlayed (state st)) (daysPlayed (state (store_of (apply_mutation m st))))"
    by simp_all
qed

lemma safe_run:
  "stored (state st) \<Longrightarrow> isSafeCount (daysPlayed (state st)) \<Longrightarrow>
   isSafeCount (daysPlayed (state (run ms st))) \<and>
   num_le (daysPlayed (state st)) (daysPlayed (state (run ms st)))"
proof (induction ms arbitrary: st)
  case Nil
  then show ?case by (cases "daysPlayed (state st)") (simp_all add: isSafeCount_def)
next
  case (Cons m ms)
  note a = safe_apply[OF Cons.prems, of m]
  from Cons.IH[OF stored_apply_mutation[OF Cons.prems(1)] a(1)] a(2) show ?case
    by (auto intro: num_le_trans)
qed

text \<open>
  Claim C9, as the spec has it: \<open>daysPlayed\<close> is always a non-negative integer. The
  initial state takes \<open>daysPlayed\<close> from the loaded state through
  \<^verbatim>\<open>Math.max(0, Number(s.daysPlayed) || 0)\<close>, which floors it at 0 and does not round
  it: a stored profile with \<open>daysPlayed\<close> 5/2 starts the store with 5/2.
\<close>

theorem daysPlayed_integer_counterexample:
  "stored (initialState (Some (defaultState\<lparr>daysPlayed := Fin (5 / 2)\<rparr>))) \<and>
   daysPlayed (initialState (Some (defaultState\<lparr>daysPlayed := Fin (5 / 2)\<rparr>))) = Fin (5 / 2) \<and>
   Math_floor (daysPlayed (initialState (Some (defaultState\<lparr>daysPlayed := Fin (5 / 2)\<rparr>)))) = Fin 2 \<and>
   \<not> isCount (daysPlayed (initialState (Some (defaultState\<lparr>daysPlayed := Fin (5 / 2)\<rparr>))))"
proof -
  have "\<lfloor>5 / 2 :: rat\<rfloor> = 2"
    by (rule floor_unique) simp_all
  then show ?thesis
    by (simp add: stored_commit initialState_Some commit_sel)
qed

text \<open>
  Claim C9, amended. In every state the store holds \<open>daysPlayed\<close> is a non-negative
  number. A mutator call either leaves it as it is or, for \<open>setNeed\<close> and \<open>bumpNeed\<close> only
  (the day advance), replaces it by the double nearest to \<open>daysPlayed + 1\<close>, and does not
  decrease it. When \<open>daysPlayed\<close> is a non-negative integer below 9007199254740992 the day
  advance adds exactly 1; at 9007199254740992 it leaves it there. Hence \<open>daysPlayed\<close> is
  a non-negative integer of at most 9007199254740992 in every state reached from the
  fresh store, and along any run that starts with one, and no run decreases it.
  \<open>incrementDaysPlayed\<close> returns the store unchanged for every argument.
\<close>

theorem daysPlayed_monotone:
  "(stored (state st) \<longrightarrow>
      num_ge (daysPlayed (state st)) (Fin 0) \<and>
      (daysPlayed (state (store_of (apply_mutation m st))) = daysPlayed (state st) \<or>
       daysPlayed (state (store_of (apply_mutation m st))) =
         num_add (daysPlayed (state st)) (Fin 1) \<and>
       (\<exists>n v. m = SetNeed n v \<or> m = BumpNeed n v)) \<and>
      (isDouble (daysPlayed (state st)) \<longrightarrow>
         num_le (daysPlayed (state st)) (daysPlayed (state (store_of (apply_mutation m st))))) \<and>
      (\<forall>q. daysPlayed (state st) = Fin q \<and> isCount (Fin q) \<and> q < 9007199254740992 \<longrightarrow>
           num_add (daysPlayed (state st)) (Fin 1) = Fin (q + 1)) \<and>
      (daysPlayed (state st) = Fin 9007199254740992 \<longrightarrow>
         num_add (daysPlayed (state st)) (Fin 1) = Fin 9007199254740992) \<and>
      (isSafeCount (daysPlayed (state st)) \<longrightarrow>
         isSafeCount (daysPlayed (state (run ms st))) \<and>
         num_le (daysPlayed (state st)) (daysPlayed (state (run ms st))))) \<and>
   isSafeCount (daysPlayed (state (run ms freshStore))) \<and>
   incrementDaysPlayed b st = st"
proof (intro conjI impI allI)
  assume held: "stored (state st)"
  show "num_ge (daysPlayed (state st)) (Fin 0)"
    using floor0_nonneg[of "daysPlayed (state st)"] by (simp add: stored_days[OF held])
  show "daysPlayed (state (store_of (apply_mutation m st))) = daysPlayed (state st) \<or>
       daysPlayed (state (store_of (apply_mutation m st))) =
         num_add (daysPlayed (state st)) (Fin 1) \<and>
       (\<exists>n v. m = SetNeed n v \<or> m = BumpNeed n v)"
    using held by (rule days_apply_mutation)
  show "num_le (daysPlayed (state st)) (daysPlayed (state (store_of (apply_mutation m st))))"
    if "isDouble (daysPlayed (state st))"
    using held that by (rule days_le_apply)
  show "num_add (daysPlayed (state st)) (Fin 1) = Fin (q + 1)"
    if "daysPlayed (state st) = Fin q \<and> isCount (Fin q) \<and> q < 9007199254740992" for q
    using that count_plus_one[of q] by (simp del: num_add.simps)
  show "num_add (daysPlayed (state st)) (Fin 1) = Fin 9007199254740992"
    if "daysPlayed (state st) = Fin 9007199254740992"
    using that toDouble_tie by simp
  show "isSafeCount (daysPlayed (state (run ms st)))"
    if "isSafeCount (daysPlayed (state st))"
    using safe_run[OF held that] by simp
  show "num_le (daysPlayed (state st)) (daysPlayed (state (run ms st)))"
    if "isSafeCount (daysPlayed (state st))"
    using safe_run[OF held that] by simp
next
  have "stored (state freshStore)"
    by (simp add: state_freshStore stored_defaultState)
  moreover have "isSafeCount (daysPlayed (state freshStore))"
    by (simp add: state_freshStore defaultState_def isSafeCount_def)
  ultimately show "isSafeCount (daysPlayed (state (run ms freshStore)))"
    using safe_run by blast
next
  show "incrementDaysPlayed b st = st"
    by (simp add: incrementDaysPlayed_def)
qed

text \<open>
  On the spec's example store (four needs at 100, \<open>sleep\<close> at 99): \<open>setNeed Sleep 100\<close>
  takes the counter from 0 to 1, \<open>incrementDaysPlayed\<close> leaves the store as it is, and a
  run of other calls after the advance leaves the counter at 1. On the store that holds
  9007199254740992 days the day advance leaves the counter where it is.
\<close>

theorem daysPlayed_monotone_witness:
  "stored (state nearlyDoneStore) \<and>
   isDouble (daysPlayed (state nearlyDoneStore)) \<and>
   isSafeCount (daysPlayed (state nearlyDoneStore)) \<and>
   daysPlayed (state nearlyDoneStore) = Fin 0 \<and>
   num_add (daysPlayed (state nearlyDoneStore)) (Fin 1) = Fin 1 \<and>
   daysPlayed (state (store_of (apply_mutation (SetNeed Sleep (Fin 100)) nearlyDoneStore))) = Fin 1 \<and>
   num_le (daysPlayed (state nearlyDoneStore))
     (daysPlayed (state (store_of (apply_mutation (SetNeed Sleep (Fin 100)) nearlyDoneStore)))) \<and>
   num_le (daysPlayed (state nearlyDoneStore))
     (daysPlayed (state (run [SetNeed Sleep (Fin 100), SetSelectedPet cat,
        IncrementDaysPlayed (Some (Fin 5))] nearlyDoneStore))) \<and>
   isSafeCount (daysPlayed (state (run [SetNeed Sleep (Fin 100), SetSelectedPet cat,
        IncrementDaysPlayed (Some (Fin 5))] nearlyDoneStore))) \<and>
   incrementDaysPlayed (Some (Fin 5)) nearlyDoneStore = nearlyDoneStore \<and>
   stored (state lateStore) \<and>
   daysPlayed (state lateStore) = Fin 9007199254740992 \<and>
   num_add (daysPlayed (state lateStore)) (Fin 1) = Fin 9007199254740992"
proof -
  have d0: "daysPlayed (state nearlyDoneStore) = Fin 0"
    by (simp add: nearlyDoneStore_def defaultState_def)
  have dbl: "isDouble (Fin 0)" by (simp add: toDouble_0)
  have safe: "isSafeCount (Fin 0)" "isCount (Fin 0)" by (simp_all add: isSafeCount_def)
  have ok: "\<not> ageBumpThrows nearlyDoneStore"
    by (simp add: ageBumpThrows_def nearlyDoneStore_def)
  have adv: "daysPlayed (state (store_of (apply_mutation (SetNeed Sleep (Fin 100)) nearlyDoneStore))) =
             Fin 1"
    using nearlyDone_edge ok by (simp add: setNeed_days d0 toDouble_1)
  note t = daysPlayed_monotone[of nearlyDoneStore "SetNeed Sleep (Fin 100)"
            "[SetNeed Sleep (Fin 100), SetSelectedPet cat, IncrementDaysPlayed (Some (Fin 5))]"
            "Some (Fin 5)"]
  note t' = daysPlayed_monotone[of lateStore "SetNeed Sleep (Fin 100)" "[]" None]
  have a: "num_add (daysPlayed (state nearlyDoneStore)) (Fin 1) = Fin 1"
    "num_le (daysPlayed (state nearlyDoneStore))
       (daysPlayed (state (store_of (apply_mutation (SetNeed Sleep (Fin 100)) nearlyDoneStore))))"
    "num_le (daysPlayed (state nearlyDoneStore))
     (daysPlayed (state (run [SetNeed Sleep (Fin 100), SetSelectedPet cat,
        IncrementDaysPlayed (Some (Fin 5))] nearlyDoneStore)))"
    "isSafeCount (daysPlayed (state (run [SetNeed Sleep (Fin 100), SetSelectedPet cat,
        IncrementDaysPlayed (Some (Fin 5))] nearlyDoneStore)))"
    "incrementDaysPlayed (Some (Fin 5)) nearlyDoneStore = nearlyDoneStore"
    using t stored_nearlyDone dbl safe unfolding d0 by (auto simp del: num_add.simps run.simps)
  have b: "num_add (daysPlayed (state lateStore)) (Fin 1) = Fin 9007199254740992"
    using t' state_lateStore by (simp del: num_add.simps)
  show ?thesis
    using a b adv d0 dbl safe stored_nearlyDone state_lateStore by (simp del: num_add.simps run.simps)
qed

section \<open>The normalizer does not cap the transactions\<close>




end
